theory Spec2Isabelle
  imports Main "HOL-Library.Multiset" "HOL-Library.Sublist"
begin

section \<open>Blocks and descriptors of a single-file component\<close>

text \<open>
  The structural parse of a \<^verbatim>\<open>.vue\<close> file comes from the external component parser
  (\<^verbatim>\<open>vue/compiler-sfc\<close>). Only the fields the plugin reads are kept. An attribute value
  is a string or the boolean \<^verbatim>\<open>true\<close>; an attribute object is an association list in
  the order in which JavaScript enumerates its keys.
\<close>

typedecl ImportBinding

type_synonym Imports = "(string \<times> ImportBinding) list"

datatype AttrValue = ATrue | AStr string

type_synonym Attrs = "(string \<times> AttrValue) list"

text \<open>The decoded query of a virtual module address, as \<^verbatim>\<open>getSrcDescriptor\<close> reads it.\<close>

record VueQuery =
  src :: "string option"
  scoped :: bool

record SFCBlock =
  type :: string
  content :: string
  attrs :: Attrs
  lang :: "string option"
  src :: "string option"
  scoped :: bool
  module :: "AttrValue option"

text \<open>The resolved script of a descriptor; \<^verbatim>\<open>imports\<close> is its only field read here.\<close>

record SFCScriptBlock =
  "imports" :: "Imports option"

record SFCDescriptor =
  filename :: string
  id' :: string
  template :: "SFCBlock option"
  script :: "SFCBlock option"
  scriptSetup :: "SFCBlock option"
  styles :: "SFCBlock list"
  customBlocks :: "SFCBlock list"
  cssVars :: "string list"
  shouldForceReload :: "Imports \<Rightarrow> bool"

text \<open>JavaScript truthiness of an optional string: present and not empty.\<close>

definition truthy :: "string option \<Rightarrow> bool" where
  "truthy s = (case s of None \<Rightarrow> False | Some t \<Rightarrow> t \<noteq> [])"

text \<open>\<^verbatim>\<open>Object.keys(attrs)\<close> and the property read \<^verbatim>\<open>attrs[key]\<close>.\<close>

definition keys :: "Attrs \<Rightarrow> string list" where
  "keys as = map fst as"

definition getAttr :: "Attrs \<Rightarrow> string \<Rightarrow> AttrValue option" where
  "getAttr as key = map_of as key"

text \<open>An attribute object has each key once.\<close>

definition wfBlock :: "SFCBlock option \<Rightarrow> bool" where
  "wfBlock a = (case a of None \<Rightarrow> True | Some x \<Rightarrow> distinct (keys (attrs x)))"

section \<open>Block comparison (handleHotUpdate.ts)\<close>

fun isEqualBlock :: "SFCBlock option \<Rightarrow> SFCBlock option \<Rightarrow> bool" where
  "isEqualBlock None None = True"
| "isEqualBlock None (Some b) = False"
| "isEqualBlock (Some a) None = False"
| "isEqualBlock (Some a) (Some b) =
     (if truthy (src a) \<and> truthy (src b) \<and> src a = src b then True
      else if content a \<noteq> content b then False
      else let keysA = keys (attrs a); keysB = keys (attrs b) in
           if length keysA \<noteq> length keysB then False
           else list_all (\<lambda>key. getAttr (attrs a) key = getAttr (attrs b) key) keysA)"

text \<open>
  The reference definition, following the words of the specification: both absent, exactly
  one absent, the same non-empty \<^verbatim>\<open>src\<close>, and otherwise identical content with attribute
  maps equal as sets of key-value pairs of the same size.
\<close>

definition blockEquals :: "SFCBlock option \<Rightarrow> SFCBlock option \<Rightarrow> bool" where
  "blockEquals a b =
     (case (a, b) of
        (None, None) \<Rightarrow> True
      | (None, Some y) \<Rightarrow> False
      | (Some x, None) \<Rightarrow> False
      | (Some x, Some y) \<Rightarrow>
          (case src x of
             None \<Rightarrow> False
           | Some s \<Rightarrow> s \<noteq> [] \<and> src y = Some s)
          \<or> (content x = content y
              \<and> set (attrs x) = set (attrs y)
              \<and> length (attrs x) = length (attrs y)))"

text \<open>
  \<^verbatim>\<open>getResolvedScript\<close> belongs to \<^verbatim>\<open>script.ts\<close>, which is not among the sources; the
  lookup is a parameter of every function that calls it.
\<close>

type_synonym ResolvedScripts = "SFCDescriptor \<Rightarrow> bool \<Rightarrow> SFCScriptBlock option"

definition prevImportsOf :: "ResolvedScripts \<Rightarrow> SFCDescriptor \<Rightarrow> Imports option" where
  "prevImportsOf getResolvedScript prev =
     (case getResolvedScript prev False of None \<Rightarrow> None | Some r \<Rightarrow> imports r)"

definition hasScriptChanged :: "ResolvedScripts \<Rightarrow> SFCDescriptor \<Rightarrow> SFCDescriptor \<Rightarrow> bool" where
  "hasScriptChanged getResolvedScript prev next =
     (if \<not> isEqualBlock (script prev) (script next) then True
      else if \<not> isEqualBlock (scriptSetup prev) (scriptSetup next) then True
      else (case prevImportsOf getResolvedScript prev of
              Some prevImports \<Rightarrow> template next = None \<or> shouldForceReload next prevImports
            | None \<Rightarrow> False))"


section \<open>Strings, patterns and JavaScript built-ins\<close>

text \<open>
  Strings are lists of 8-bit characters. The regular expressions of the plugin are written
  out as the recursive tests they stand for.
\<close>

text \<open>\<^verbatim>\<open>s.includes(pat)\<close>, also the test of a pattern that is a plain literal.\<close>

fun "includes" :: "string \<Rightarrow> string \<Rightarrow> bool" where
  "includes [] pat = (pat = [])"
| "includes (c # cs) pat = (prefix pat (c # cs) \<or> includes cs pat)"

definition endsWith :: "string \<Rightarrow> string \<Rightarrow> bool" where
  "endsWith s suf = prefix (rev suf) (rev s)"

text \<open>The class \<^verbatim>\<open>\w\<close> and the characters that \<^verbatim>\<open>.\<close> does not match.\<close>

definition isWordChar :: "char \<Rightarrow> bool" where
  "isWordChar c = (c \<in> set ''abcdefghijklmnopqrstuvwxyzABCDEFGHIJKLMNOPQRSTUVWXYZ0123456789_'')"

definition isLineTerminator :: "char \<Rightarrow> bool" where
  "isLineTerminator c = (c = CHR 0x0A \<or> c = CHR 0x0D)"

text \<open>\<^verbatim>\<open>/(?:\?|&)direct\b/\<close>\<close>

fun directRequestRE :: "string \<Rightarrow> bool" where
  "directRequestRE [] = False"
| "directRequestRE (c # cs) =
     (((c = CHR ''?'' \<or> c = CHR ''&'') \<and> prefix ''direct'' cs
        \<and> (case drop 6 cs of [] \<Rightarrow> True | d # ds \<Rightarrow> \<not> isWordChar d))
      \<or> directRequestRE cs)"

text \<open>\<^verbatim>\<open>/type=script.*&lang\.\w+$/\<close>, in three layers from the end of the pattern.\<close>

definition langTail :: "string \<Rightarrow> bool" where
  "langTail s = (prefix ''&lang.'' s \<and> drop 6 s \<noteq> [] \<and> list_all isWordChar (drop 6 s))"

fun anyThenLangTail :: "string \<Rightarrow> bool" where
  "anyThenLangTail [] = langTail []"
| "anyThenLangTail (c # cs) =
     (langTail (c # cs) \<or> (\<not> isLineTerminator c \<and> anyThenLangTail cs))"

fun scriptModuleRE :: "string \<Rightarrow> bool" where
  "scriptModuleRE [] = False"
| "scriptModuleRE (c # cs) =
     ((prefix ''type=script'' (c # cs) \<and> anyThenLangTail (drop 11 (c # cs)))
      \<or> scriptModuleRE cs)"

text \<open>\<^verbatim>\<open>s.replace(/\?.*$/, '')\<close>: cut at the first question mark that no line break follows.\<close>

fun stripQuery :: "string \<Rightarrow> string" where
  "stripQuery [] = []"
| "stripQuery (c # cs) =
     (if c = CHR ''?'' \<and> list_all (\<lambda>d. \<not> isLineTerminator d) cs then []
      else c # stripQuery cs)"

text \<open>The number of matches of \<^verbatim>\<open>/\r?\n/g\<close>, scanning from the left.\<close>

fun newlineMatches :: "string \<Rightarrow> nat" where
  "newlineMatches [] = 0"
| "newlineMatches [c] = (if c = CHR 0x0A then 1 else 0)"
| "newlineMatches (c # d # cs) =
     (if c = CHR 0x0D \<and> d = CHR 0x0A then Suc (newlineMatches cs)
      else if c = CHR 0x0A then Suc (newlineMatches (d # cs))
      else newlineMatches (d # cs))"

text \<open>A number inside a template literal: its decimal digits.\<close>

fun showNat :: "nat \<Rightarrow> string" where
  "showNat n =
     (if n < 10 then [''0123456789'' ! n]
      else showNat (n div 10) @ [''0123456789'' ! (n mod 10)])"

declare showNat.simps [simp del]

text \<open>An optional string inside a template literal.\<close>

definition showOpt :: "string option \<Rightarrow> string" where
  "showOpt s = (case s of None \<Rightarrow> ''undefined'' | Some t \<Rightarrow> t)"

text \<open>
  \<^verbatim>\<open>encodeURIComponent\<close> on characters up to U+00FF: the unreserved characters stay, every
  other one becomes the percent-escapes of its UTF-8 bytes.
\<close>

definition uriUnreserved :: "char \<Rightarrow> bool" where
  "uriUnreserved c = (isWordChar c \<or> c \<in> set ''-.!~*()'' \<or> c = CHR 0x27)"

definition percentByte :: "nat \<Rightarrow> string" where
  "percentByte b = [CHR ''%'', ''0123456789ABCDEF'' ! (b div 16), ''0123456789ABCDEF'' ! (b mod 16)]"

definition encodeChar :: "char \<Rightarrow> string" where
  "encodeChar c =
     (if uriUnreserved c then [c]
      else if (of_char c :: nat) < 128 then percentByte (of_char c)
      else percentByte (192 + (of_char c :: nat) div 64) @ percentByte (128 + (of_char c :: nat) mod 64))"

definition encodeURIComponent :: "string \<Rightarrow> string" where
  "encodeURIComponent s = concat (map encodeChar s)"

section \<open>Descriptor cache (utils/descriptorCache.ts)\<close>

type_synonym CompilerError = string

datatype Exception = FileReadFailure string | Thrown CompilerError

record SFCParseResult =
  descriptor :: SFCDescriptor
  errors :: "CompilerError list"

text \<open>\<^verbatim>\<open>compiler.parse(source, { filename, sourceMap })\<close> of the external component parser.\<close>

record Compiler =
  parse :: "string \<Rightarrow> string \<Rightarrow> bool \<Rightarrow> SFCParseResult"

record ResolvedOptions =
  root :: string
  isProduction :: bool
  sourceMap :: bool
  compiler :: Compiler

text \<open>
  What the module takes from Node.js and from the \<^verbatim>\<open>slash\<close> package: the synchronous file
  read, the three path functions and the SHA-256 digest in hexadecimal.
\<close>

record Platform =
  readFileSync :: "string \<Rightarrow> Exception + string"
  pathRelative :: "string \<Rightarrow> string \<Rightarrow> string"
  pathNormalize :: "string \<Rightarrow> string"
  slash :: "string \<Rightarrow> string"
  sha256hex :: "string \<Rightarrow> string"

text \<open>The three module-level maps.\<close>

record Caches =
  cache :: "string \<rightharpoonup> SFCDescriptor"
  hmrCache :: "string \<rightharpoonup> SFCDescriptor"
  prevCache :: "string \<rightharpoonup> SFCDescriptor"

definition getHash :: "Platform \<Rightarrow> string \<Rightarrow> string" where
  "getHash h text = take 8 (sha256hex h text)"

definition createDescriptor ::
  "Platform \<Rightarrow> string \<Rightarrow> string \<Rightarrow> ResolvedOptions \<Rightarrow> bool \<Rightarrow> Caches \<Rightarrow> SFCParseResult \<times> Caches" where
  "createDescriptor h fname source opts hmr st =
     (let res = parse (compiler opts) source fname (sourceMap opts);
          normalizedPath = slash h (pathNormalize h (pathRelative h (root opts) fname));
          d = (descriptor res)
                \<lparr>id' := getHash h (normalizedPath @ (if isProduction opts then source else ''''))\<rparr>;
          st' = (if hmr then st\<lparr>hmrCache := (hmrCache st)(fname \<mapsto> d)\<rparr>
                 else st\<lparr>cache := (cache st)(fname \<mapsto> d)\<rparr>)
      in (\<lparr>descriptor = d, errors = errors res\<rparr>, st'))"

definition getPrevDescriptor :: "Caches \<Rightarrow> string \<Rightarrow> SFCDescriptor option" where
  "getPrevDescriptor st fname = prevCache st fname"

definition invalidateDescriptor :: "string \<Rightarrow> bool \<Rightarrow> Caches \<Rightarrow> Caches" where
  "invalidateDescriptor fname hmr st =
     (let prev = (if hmr then hmrCache st else cache st) fname;
          st' = (if hmr then st\<lparr>hmrCache := (hmrCache st)(fname := None)\<rparr>
                 else st\<lparr>cache := (cache st)(fname := None)\<rparr>)
      in case prev of
           Some p \<Rightarrow> st'\<lparr>prevCache := (prevCache st')(fname \<mapsto> p)\<rparr>
         | None \<Rightarrow> st')"

definition getDescriptor ::
  "Platform \<Rightarrow> string \<Rightarrow> ResolvedOptions \<Rightarrow> bool \<Rightarrow> bool \<Rightarrow> Caches
     \<Rightarrow> (Exception + SFCDescriptor option) \<times> Caches" where
  "getDescriptor h fname opts createIfNotFound hmr st =
     (case (if hmr then hmrCache st else cache st) fname of
        Some d \<Rightarrow> (Inr (Some d), st)
      | None \<Rightarrow>
          if createIfNotFound then
            (case readFileSync h fname of
               Inl e \<Rightarrow> (Inl e, st)
             | Inr text \<Rightarrow>
                 (case createDescriptor h fname text opts hmr st of
                    (res, st') \<Rightarrow>
                      if errors res \<noteq> [] \<and> \<not> hmr then (Inl (Thrown (hd (errors res))), st')
                      else (Inr (Some (descriptor res)), st')))
          else (Inr None, st))"

definition getSrcDescriptor :: "Caches \<Rightarrow> string \<Rightarrow> VueQuery \<Rightarrow> SFCDescriptor option" where
  "getSrcDescriptor st fname query =
     (if VueQuery.scoped query then cache st (fname @ ''?src='' @ showOpt (VueQuery.src query))
      else cache st fname)"

definition setSrcDescriptor :: "string \<Rightarrow> SFCDescriptor \<Rightarrow> bool \<Rightarrow> Caches \<Rightarrow> Caches" where
  "setSrcDescriptor fname entry isScoped st =
     (if isScoped then st\<lparr>cache := (cache st)(fname @ ''?src='' @ id' entry \<mapsto> entry)\<rparr>
      else st\<lparr>cache := (cache st)(fname \<mapsto> entry)\<rparr>)"

section \<open>Hot update classification (handleHotUpdate.ts)\<close>

text \<open>
  A module of the host's module graph: its address and the modules that import it. The
  host keeps one module per address, so equality of the fields stands for the identity of
  the object.
\<close>

datatype ModuleNode = ModuleNode (url: string) (importers: "ModuleNode list")

text \<open>
  \<^verbatim>\<open>Set<ModuleNode | undefined>\<close> in insertion order; \<^verbatim>\<open>None\<close> is the entry
  \<^verbatim>\<open>undefined\<close>.
\<close>

type_synonym AffectedSet = "ModuleNode option list"

definition setAdd :: "ModuleNode option \<Rightarrow> AffectedSet \<Rightarrow> AffectedSet" where
  "setAdd m s = (if m \<in> set s then s else s @ [m])"

definition getMainModule :: "ModuleNode list \<Rightarrow> ModuleNode option" where
  "getMainModule mods =
     (case sort_key (\<lambda>m. length (url m))
             (filter (\<lambda>m. \<not> includes (url m) ''type='' \<or> includes (url m) ''type=script'') mods) of
        [] \<Rightarrow> None
      | m # ms \<Rightarrow> Some m)"

definition getScriptModule :: "ModuleNode list \<Rightarrow> ModuleNode option" where
  "getScriptModule mods = find (\<lambda>m. scriptModuleRE (url m)) mods"

text \<open>\<^verbatim>\<open>xs[i]\<close>, which is \<^verbatim>\<open>undefined\<close> past the end.\<close>

definition at :: "'a list \<Rightarrow> nat \<Rightarrow> 'a option" where
  "at xs i = (if i < length xs then Some (xs ! i) else None)"

text \<open>One round of the loop over the style blocks of the new descriptor.\<close>

definition styleStep ::
  "ModuleNode list \<Rightarrow> ModuleNode option \<Rightarrow> SFCBlock list \<Rightarrow> SFCBlock list \<Rightarrow> nat
     \<Rightarrow> AffectedSet \<times> bool \<Rightarrow> AffectedSet \<times> bool" where
  "styleStep mods mainModule prevStyles nextStyles i acc =
     (let prev = at prevStyles i;
          next = nextStyles ! i
      in if prev = None \<or> \<not> isEqualBlock prev (Some next) then
           (case find (\<lambda>m. includes (url m) (''type=style&index='' @ showNat i)
                          \<and> endsWith (url m)
                               (''.'' @ (if truthy (lang next) then the (lang next) else ''css''))
                          \<and> \<not> directRequestRE (url m)) mods of
              Some found \<Rightarrow>
                (if includes (url found) ''&inline''
                 then setAdd mainModule (setAdd (Some found) (fst acc))
                 else setAdd (Some found) (fst acc), True)
            | None \<Rightarrow> (setAdd mainModule (fst acc), True))
         else acc)"

text \<open>One round of the loop over the custom blocks, entered when the counts agree.\<close>

definition customStep ::
  "ModuleNode list \<Rightarrow> ModuleNode option \<Rightarrow> SFCBlock list \<Rightarrow> SFCBlock list \<Rightarrow> nat
     \<Rightarrow> AffectedSet \<Rightarrow> AffectedSet" where
  "customStep mods mainModule prevCustoms nextCustoms i affectedModules =
     (let prev = at prevCustoms i;
          next = nextCustoms ! i
      in if prev = None \<or> \<not> isEqualBlock prev (Some next) then
           (case find (\<lambda>m. includes (url m)
                               (''type='' @ type (prevCustoms ! i) @ ''&index='' @ showNat i)) mods of
              Some found \<Rightarrow> setAdd (Some found) affectedModules
            | None \<Rightarrow> setAdd mainModule affectedModules)
         else affectedModules)"

text \<open>
  What a run leaves behind besides the cache: the returned modules, the update kinds it
  logged, and the argument of \<^verbatim>\<open>setResolvedScript\<close> when the previous compiled script was
  carried over to the new descriptor.
\<close>

record HotUpdate =
  returned :: "ModuleNode list"
  updateType :: "string list"
  reusedScript :: "SFCScriptBlock option option"

text \<open>
  The body of \<^verbatim>\<open>handleHotUpdate\<close> between the parse of the new content and the cache
  invalidation. \<^verbatim>\<open>isCSSRequest\<close> is the host's test of an address.
\<close>

definition classify ::
  "(string \<Rightarrow> bool) \<Rightarrow> ResolvedScripts \<Rightarrow> ModuleNode list \<Rightarrow> SFCDescriptor \<Rightarrow> SFCDescriptor
     \<Rightarrow> HotUpdate" where
  "classify isCSSRequest getResolvedScript mods prevDescriptor desc =
     (let mainModule = getMainModule mods;
          templateModule = find (\<lambda>m. includes (url m) ''type=template'') mods;
          scriptChanged = hasScriptChanged getResolvedScript prevDescriptor desc;
          a1 = (if scriptChanged
                then setAdd (case getScriptModule mods of Some m \<Rightarrow> Some m | None \<Rightarrow> mainModule) []
                else []);
          needRerender = (\<not> isEqualBlock (template desc) (template prevDescriptor));
          reuse = (if needRerender \<and> \<not> scriptChanged
                   then Some (getResolvedScript prevDescriptor False) else None);
          a2 = (if needRerender then setAdd templateModule a1 else a1);
          prevStyles = styles prevDescriptor;
          nextStyles = styles desc;
          a3 = (if concat (cssVars prevDescriptor) \<noteq> concat (cssVars desc)
                then setAdd mainModule a2 else a2);
          a4 = (if list_ex scoped prevStyles \<noteq> list_ex scoped nextStyles
                then setAdd mainModule (setAdd templateModule a3) else a3);
          styled = fold (styleStep mods mainModule prevStyles nextStyles)
                     [0..<length nextStyles] (a4, False);
          didUpdateStyle = snd styled;
          a6 = (if length prevStyles > length nextStyles
                then setAdd mainModule (fst styled) else fst styled);
          prevCustoms = customBlocks prevDescriptor;
          nextCustoms = customBlocks desc;
          a7 = (if length prevCustoms \<noteq> length nextCustoms then setAdd mainModule a6
                else fold (customStep mods mainModule prevCustoms nextCustoms)
                       [0..<length nextCustoms] a6);
          a8 = (if needRerender then
                  (if templateModule = None then setAdd mainModule a7
                   else if mainModule \<noteq> None \<and> mainModule \<notin> set a7 then
                     fold (\<lambda>m. setAdd (Some m))
                       (filter (\<lambda>m. isCSSRequest (url m)) (importers (the mainModule))) a7
                   else a7)
                else a7);
          kinds = (if needRerender then [''template''] else [])
                  @ (if didUpdateStyle then [''style''] else [])
      in \<lparr>returned = map the (filter (\<lambda>m. m \<noteq> None) a8),
          updateType = kinds,
          reusedScript = reuse\<rparr>)"

text \<open>The context the host hands over; \<^verbatim>\<open>read\<close> is the outcome of awaiting the reader.\<close>

record HmrContext =
  "file" :: string
  modules :: "ModuleNode list"
  read :: "Exception + string"

definition handleHotUpdate ::
  "(string \<Rightarrow> bool) \<Rightarrow> ResolvedScripts \<Rightarrow> Platform \<Rightarrow> HmrContext \<Rightarrow> ResolvedOptions \<Rightarrow> Caches
     \<Rightarrow> (Exception + HotUpdate option) \<times> Caches" where
  "handleHotUpdate isCSSRequest getResolvedScript h ctx opts st =
     (case getDescriptor h (file ctx) opts False True st of
        (Inl e, st0) \<Rightarrow> (Inl e, st0)
      | (Inr None, st0) \<Rightarrow> (Inr None, st0)
      | (Inr (Some prevDescriptor), st0) \<Rightarrow>
          (case read ctx of
             Inl e \<Rightarrow> (Inl e, st0)
           | Inr newContent \<Rightarrow>
               (case createDescriptor h (file ctx) newContent opts True st0 of
                  (res, st1) \<Rightarrow>
                    let r = classify isCSSRequest getResolvedScript (modules ctx)
                              prevDescriptor (descriptor res)
                    in (Inr (Some r),
                        if updateType r \<noteq> [] then invalidateDescriptor (file ctx) False st1
                        else st1))))"

section \<open>Virtual module addresses (main.ts)\<close>

definition ignoreList :: "string list" where
  "ignoreList = [''id'', ''index'', ''src'', ''type'', ''lang'', ''module'', ''scoped'', ''generic'']"

text \<open>Truthiness of an attribute value, and the value as \<^verbatim>\<open>String(value)\<close>.\<close>

definition attrTruthy :: "AttrValue \<Rightarrow> bool" where
  "attrTruthy v = (case v of ATrue \<Rightarrow> True | AStr s \<Rightarrow> s \<noteq> [])"

definition attrString :: "AttrValue \<Rightarrow> string" where
  "attrString v = (case v of ATrue \<Rightarrow> ''true'' | AStr s \<Rightarrow> s)"

text \<open>The body of the \<^verbatim>\<open>for (const name in attrs)\<close> loop, on the query built so far.\<close>

definition attrsToQueryStep :: "string \<times> AttrValue \<Rightarrow> string \<Rightarrow> string" where
  "attrsToQueryStep nv query =
     (if fst nv \<notin> set ignoreList
      then query @ ''&'' @ encodeURIComponent (fst nv)
             @ (if attrTruthy (snd nv) then ''='' @ encodeURIComponent (attrString (snd nv))
                else '''')
      else query)"

definition attrsToQuery :: "Attrs \<Rightarrow> string option \<Rightarrow> bool \<Rightarrow> string" where
  "attrsToQuery as langFallback forceLangFallback =
     (let query = fold attrsToQueryStep as ''''
      in if truthy langFallback
            \<or> (case getAttr as ''lang'' of None \<Rightarrow> False | Some v \<Rightarrow> attrTruthy v)
         then query @
              (if ''lang'' \<in> set (keys as)
               then (if forceLangFallback then ''&lang.'' @ showOpt langFallback
                     else ''&lang.'' @ (case getAttr as ''lang'' of
                                          None \<Rightarrow> ''undefined''
                                        | Some v \<Rightarrow> attrString v))
               else ''&lang.'' @ showOpt langFallback)
         else query)"

text \<open>
  \<^verbatim>\<open>linkSrcToDescriptor\<close>; \<^verbatim>\<open>resolve\<close> gives the id of \<^verbatim>\<open>pluginContext.resolve\<close>, if
  it resolved.
\<close>

definition srcFileOf :: "(string \<Rightarrow> string \<Rightarrow> string option) \<Rightarrow> string \<Rightarrow> SFCDescriptor \<Rightarrow> string" where
  "srcFileOf resolve srcPath desc =
     (if truthy (resolve srcPath (filename desc)) then the (resolve srcPath (filename desc))
      else srcPath)"

definition linkSrcToDescriptor ::
  "(string \<Rightarrow> string \<Rightarrow> string option) \<Rightarrow> string \<Rightarrow> SFCDescriptor \<Rightarrow> bool \<Rightarrow> Caches \<Rightarrow> Caches" where
  "linkSrcToDescriptor resolve srcPath desc isScoped st =
     setSrcDescriptor (stripQuery (srcFileOf resolve srcPath desc)) desc isScoped st"

text \<open>
  The request that \<^verbatim>\<open>genCSSModulesCode\<close> imports for a \<^verbatim>\<open>module\<close> block:
  \<^verbatim>\<open>request.replace(/\.(\w+)$/, '.module.$1')\<close>, which puts \<^verbatim>\<open>.module\<close> before a final
  extension of word characters and leaves any other request as it is.
\<close>

fun moduleRequest :: "string \<Rightarrow> string" where
  "moduleRequest [] = []"
| "moduleRequest (c # cs) =
     (if c = CHR ''.'' \<and> cs \<noteq> [] \<and> list_all isWordChar cs then ''.module.'' @ cs
      else c # moduleRequest cs)"

text \<open>The \<^verbatim>\<open>Error\<close> that \<^verbatim>\<open>genStyleCode\<close> throws, with its message.\<close>

datatype GenError = Error string

text \<open>
  One round of the loop of \<^verbatim>\<open>genStyleCode\<close> up to the address that its import statement
  names: the external file is linked, the address of style block \<^verbatim>\<open>i\<close> is built, and for
  a \<^verbatim>\<open>module\<close> block the function throws in custom-element mode and otherwise imports the
  rewritten request. The text of the import statements around the address and the table of
  the CSS modules are left out.
\<close>

definition styleSrcQuery :: "SFCDescriptor \<Rightarrow> SFCBlock \<Rightarrow> string" where
  "styleSrcQuery desc style =
     (if truthy (src style)
      then (if scoped style then ''&src='' @ id' desc else ''&src=true'')
      else '''')"

definition styleScopedQuery :: "SFCDescriptor \<Rightarrow> SFCBlock \<Rightarrow> string" where
  "styleScopedQuery desc style = (if scoped style then ''&scoped='' @ id' desc else '''')"

definition genStyleRequest ::
  "(string \<Rightarrow> string \<Rightarrow> string option) \<Rightarrow> SFCDescriptor \<Rightarrow> bool \<Rightarrow> nat \<Rightarrow> SFCBlock \<Rightarrow> Caches
     \<Rightarrow> (GenError + string) \<times> Caches" where
  "genStyleRequest resolve desc asCustomElement i style st =
     (let st' = (if truthy (src style)
                 then linkSrcToDescriptor resolve (the (src style)) desc (scoped style) st
                 else st);
          srcPath = (if truthy (src style) then the (src style) else filename desc);
          attrsQuery = attrsToQuery (attrs style) (Some ''css'') False;
          srcQuery = styleSrcQuery desc style;
          directQuery = (if asCustomElement then ''&inline'' else '''');
          scopedQuery = styleScopedQuery desc style;
          query = ''?vue&type=style&index='' @ showNat i @ srcQuery @ directQuery @ scopedQuery;
          styleRequest = srcPath @ query @ attrsQuery
      in if (case module style of None \<Rightarrow> False | Some v \<Rightarrow> attrTruthy v) then
           (if asCustomElement
            then (Inl (Error ''<style module> is not supported in custom elements mode.''), st')
            else (Inr (moduleRequest styleRequest), st'))
         else (Inr styleRequest, st'))"

section \<open>Source maps of the main module (main.ts)\<close>

text \<open>
  A source map in decoded form: its sources, their contents and its mapping entries, each
  entry as \<^verbatim>\<open>eachMapping\<close> of \<^verbatim>\<open>@jridgewell/trace-mapping\<close> presents it. The encoding
  of the entries into one string and their order inside a line are not represented; the
  empty list stands for the empty \<^verbatim>\<open>mappings\<close> string.
\<close>

record EachMapping =
  generatedLine :: nat
  generatedColumn :: nat
  source :: "string option"
  originalLine :: "nat option"
  originalColumn :: "nat option"
  name :: "string option"

record RawSourceMap =
  sources :: "string list"
  sourcesContent :: "string option list option"
  mappings :: "EachMapping list"

text \<open>
  \<^verbatim>\<open>addMapping\<close> of \<^verbatim>\<open>@jridgewell/gen-mapping\<close> with a source, an original position and a
  generated position: the source is registered if it is new and the entry is added.
\<close>

definition addMapping ::
  "RawSourceMap \<Rightarrow> string \<Rightarrow> nat option \<times> nat option \<Rightarrow> nat \<times> nat \<Rightarrow> RawSourceMap" where
  "addMapping gen s original generated =
     gen\<lparr>sources := (if s \<in> set (sources gen) then sources gen else sources gen @ [s]),
         mappings := mappings gen
           @ [\<lparr>generatedLine = fst generated, generatedColumn = snd generated,
                source = Some s, originalLine = fst original, originalColumn = snd original,
                name = None\<rparr>]\<rparr>"

text \<open>The callback handed to \<^verbatim>\<open>eachMapping\<close>.\<close>

definition shiftInto :: "nat \<Rightarrow> EachMapping \<Rightarrow> RawSourceMap \<Rightarrow> RawSourceMap" where
  "shiftInto offset m gen =
     (case source m of
        None \<Rightarrow> gen
      | Some s \<Rightarrow>
          addMapping gen s (originalLine m, originalColumn m)
            (generatedLine m + offset, generatedColumn m))"

text \<open>
  The two places of \<^verbatim>\<open>transformMain\<close> that decide the map of the main module: the merge
  of the script map and the template map, and the fallback in the returned object. The
  transpilation of TypeScript between them hands the map to the host and is left out.
\<close>

definition resolvedMapOf ::
  "ResolvedOptions \<Rightarrow> string \<Rightarrow> RawSourceMap option \<Rightarrow> RawSourceMap option \<Rightarrow> RawSourceMap option" where
  "resolvedMapOf opts scriptCode scriptMap templateMap =
     (if sourceMap opts then
        (case (scriptMap, templateMap) of
           (Some sm, Some tm) \<Rightarrow>
             (let offset = newlineMatches scriptCode + 1;
                  gen = fold (shiftInto offset) (mappings tm) sm
              in Some (gen\<lparr>sourcesContent := sourcesContent tm\<rparr>))
         | (Some sm, None) \<Rightarrow> Some sm
         | (None, t) \<Rightarrow> t)
      else None)"

definition returnedMap :: "RawSourceMap option \<Rightarrow> RawSourceMap" where
  "returnedMap resolvedMap =
     (case resolvedMap of
        Some m \<Rightarrow> m
      | None \<Rightarrow> \<lparr>sources = [], sourcesContent = None, mappings = []\<rparr>)"

section \<open>Sample inputs\<close>

text \<open>
  Concrete values on which the theorems below are instantiated: a descriptor without
  blocks, caches that hold one descriptor for one file, a block without flags, an in-memory file system with stand-ins for the path
  functions and the digest, a parser that takes the whole source as the markup block and
  reports an error when the source starts with a tag, and one that takes the whole source as
  the behavior block.
\<close>

definition sampleDescriptor :: "string \<Rightarrow> SFCDescriptor" where
  "sampleDescriptor f =
     \<lparr>filename = f, id' = '''', template = None, script = None, scriptSetup = None,
      styles = [], customBlocks = [], cssVars = [], shouldForceReload = (\<lambda>i. False)\<rparr>"

definition sampleBlock :: "string \<Rightarrow> string \<Rightarrow> Attrs \<Rightarrow> SFCBlock" where
  "sampleBlock t c as =
     \<lparr>type = t, content = c, attrs = as, lang = None, src = None, scoped = False,
      module = None\<rparr>"

definition samplePlatform :: "(string \<rightharpoonup> string) \<Rightarrow> Platform" where
  "samplePlatform files =
     \<lparr>readFileSync = (\<lambda>f. case files f of Some t \<Rightarrow> Inr t | None \<Rightarrow> Inl (FileReadFailure f)),
      pathRelative = (\<lambda>r f. drop (length r) f),
      pathNormalize = (\<lambda>p. p),
      slash = (\<lambda>p. p),
      sha256hex = (\<lambda>t. rev t)\<rparr>"

definition sampleParse :: "string \<Rightarrow> string \<Rightarrow> bool \<Rightarrow> SFCParseResult" where
  "sampleParse s f m =
     \<lparr>descriptor = (sampleDescriptor f)\<lparr>template := Some (sampleBlock ''template'' s [])\<rparr>,
      errors = (if prefix ''<'' s then [''Element is missing end tag.''] else [])\<rparr>"

definition sampleScriptParse :: "string \<Rightarrow> string \<Rightarrow> bool \<Rightarrow> SFCParseResult" where
  "sampleScriptParse s f m =
     \<lparr>descriptor = (sampleDescriptor f)\<lparr>script := Some (sampleBlock ''script'' s [])\<rparr>,
      errors = []\<rparr>"

definition sampleOptions :: "bool \<Rightarrow> ResolvedOptions" where
  "sampleOptions production =
     \<lparr>root = ''/app/'', isProduction = production, sourceMap = True,
      compiler = \<lparr>parse = sampleParse\<rparr>\<rparr>"

definition emptyCaches :: Caches where
  "emptyCaches = \<lparr>cache = Map.empty, hmrCache = Map.empty, prevCache = Map.empty\<rparr>"

definition sampleCaches :: "string \<Rightarrow> SFCDescriptor \<Rightarrow> Caches" where
  "sampleCaches f d = \<lparr>cache = [f \<mapsto> d], hmrCache = [f \<mapsto> d], prevCache = Map.empty\<rparr>"

text \<open>
  A descriptor of \<^verbatim>\<open>/app/A.vue\<close> with a markup block alone, and live modules of that
  file: the main module, imported by a style sheet, and the markup module.
\<close>

definition sampleMarkup :: "string \<Rightarrow> SFCDescriptor" where
  "sampleMarkup s =
     (sampleDescriptor ''/app/A.vue'')
       \<lparr>id' := ''euv.A'', template := Some (sampleBlock ''template'' s [])\<rparr>"

definition sampleModules :: "ModuleNode list" where
  "sampleModules =
     [ModuleNode ''/app/A.vue'' [ModuleNode ''/app/tw.css'' []],
      ModuleNode ''/app/A.vue?vue&type=template&lang.js'' []]"

section \<open>Properties of the block comparison\<close>

lemma every_key_subset:
  assumes "distinct (map fst ys)"
  shows "list_all (\<lambda>key. map_of xs key = map_of ys key) (map fst xs) \<Longrightarrow> distinct (map fst xs)
         \<Longrightarrow> set xs \<subseteq> set ys"
proof
  fix p
  assume all: "list_all (\<lambda>key. map_of xs key = map_of ys key) (map fst xs)"
    and dx: "distinct (map fst xs)" and mem: "p \<in> set xs"
  obtain k v where p: "p = (k, v)" by (cases p)
  from mem p dx have "map_of xs k = Some v" by simp
  moreover from all mem p have "map_of xs k = map_of ys k"
    by (auto simp: list_all_iff)
  ultimately have "map_of ys k = Some v" by simp
  then have "(k, v) \<in> set ys" by (rule map_of_SomeD)
  then show "p \<in> set ys" using p by simp
qed

lemma same_size_subset_eq:
  assumes "distinct (map fst xs)" "distinct (map fst ys)"
    and "length xs = length ys" and "set xs \<subseteq> set ys"
  shows "set xs = set ys"
proof -
  from assms(1) have dx: "distinct xs" by (rule distinct_map [THEN iffD1, THEN conjunct1])
  from assms(2) have dy: "distinct ys" by (rule distinct_map [THEN iffD1, THEN conjunct1])
  have "card (set xs) = card (set ys)"
    using dx dy assms(3) by (simp add: distinct_card)
  with assms(4) show ?thesis
    by (intro card_subset_eq) simp_all
qed

lemma set_eq_every_key:
  assumes "distinct (map fst xs)" "distinct (map fst ys)" "set xs = set ys"
  shows "list_all (\<lambda>key. map_of xs key = map_of ys key) (map fst xs)"
proof -
  have "map_of xs = map_of ys"
    using assms by (rule map_of_inject_set [THEN iffD2])
  then show ?thesis by (simp add: list_all_iff)
qed

lemma attrs_compare_iff:
  assumes "distinct (keys xs)" "distinct (keys ys)"
  shows "(length (keys xs) = length (keys ys)
          \<and> list_all (\<lambda>key. getAttr xs key = getAttr ys key) (keys xs))
         = (set xs = set ys \<and> length xs = length ys)"
proof
  assume l: "length (keys xs) = length (keys ys)
             \<and> list_all (\<lambda>key. getAttr xs key = getAttr ys key) (keys xs)"
  then have len: "length xs = length ys" by (simp add: keys_def)
  from l have "list_all (\<lambda>key. map_of xs key = map_of ys key) (map fst xs)"
    by (simp add: keys_def getAttr_def)
  then have "set xs \<subseteq> set ys"
    using assms every_key_subset [of ys xs] by (simp add: keys_def)
  then have "set xs = set ys"
    using assms len same_size_subset_eq [of xs ys] by (simp add: keys_def)
  with len show "set xs = set ys \<and> length xs = length ys" by simp
next
  assume r: "set xs = set ys \<and> length xs = length ys"
  then have "list_all (\<lambda>key. map_of xs key = map_of ys key) (map fst xs)"
    using assms set_eq_every_key [of xs ys] by (simp add: keys_def)
  with r show "length (keys xs) = length (keys ys)
               \<and> list_all (\<lambda>key. getAttr xs key = getAttr ys key) (keys xs)"
    by (simp add: keys_def getAttr_def)
qed

lemma isEqualBlock_Some_Some:
  assumes "distinct (keys (attrs a))" "distinct (keys (attrs b))"
  shows "isEqualBlock (Some a) (Some b) = blockEquals (Some a) (Some b)"
proof -
  have src_eq: "(truthy (src a) \<and> truthy (src b) \<and> src a = src b)
                = (case src a of None \<Rightarrow> False | Some s \<Rightarrow> s \<noteq> [] \<and> src b = Some s)"
    by (auto simp: truthy_def split: option.splits)
  from attrs_compare_iff [OF assms]
  have cmp: "(length (keys (attrs a)) = length (keys (attrs b))
              \<and> list_all (\<lambda>key. getAttr (attrs a) key = getAttr (attrs b) key) (keys (attrs a)))
             = (set (attrs a) = set (attrs b) \<and> length (attrs a) = length (attrs b))" .
  show ?thesis
  proof (cases "truthy (src a) \<and> truthy (src b) \<and> src a = src b")
    case True
    then show ?thesis using src_eq by (simp add: blockEquals_def)
  next
    case False
    then have "isEqualBlock (Some a) (Some b)
               = (content a = content b
                  \<and> length (keys (attrs a)) = length (keys (attrs b))
                  \<and> list_all (\<lambda>key. getAttr (attrs a) key = getAttr (attrs b) key)
                       (keys (attrs a)))"
      by (auto simp: Let_def)
    also have "\<dots> = (content a = content b
                     \<and> set (attrs a) = set (attrs b) \<and> length (attrs a) = length (attrs b))"
      using cmp by blast
    also have "\<dots> = blockEquals (Some a) (Some b)"
      using False src_eq by (simp add: blockEquals_def)
    finally show ?thesis .
  qed
qed

lemma isEqualBlock_blockEquals:
  assumes "wfBlock a" "wfBlock b"
  shows "isEqualBlock a b = blockEquals a b"
proof (cases a)
  case None
  then show ?thesis by (cases b) (simp_all add: blockEquals_def)
next
  case (Some x)
  show ?thesis
  proof (cases b)
    case None
    with Some show ?thesis by (simp add: blockEquals_def)
  next
    case (Some y)
    with \<open>a = Some x\<close> assms show ?thesis
      by (simp only: wfBlock_def option.case isEqualBlock_Some_Some)
  qed
qed

lemma isEqualBlock_reordered:
  assumes "distinct (keys (attrs x))" "mset as = mset (attrs x)"
  shows "isEqualBlock (Some x) (Some (x\<lparr>attrs := as\<rparr>))"
proof -
  from assms(2) have s: "set as = set (attrs x)" by (rule mset_eq_setD)
  from assms(2) have l: "length as = length (attrs x)" by (rule mset_eq_length)
  from assms(2) have "mset (map fst as) = mset (map fst (attrs x))" by simp
  then have "distinct (map fst as) = distinct (map fst (attrs x))"
    by (rule mset_eq_imp_distinct_iff)
  with assms(1) have d: "distinct (keys as)"
    by (simp add: keys_def)
  have "isEqualBlock (Some x) (Some (x\<lparr>attrs := as\<rparr>))
        = blockEquals (Some x) (Some (x\<lparr>attrs := as\<rparr>))"
    using assms(1) d by (intro isEqualBlock_Some_Some) simp_all
  also have "\<dots>" using s l by (simp add: blockEquals_def)
  finally show ?thesis .
qed

text \<open>
  C4. \<^verbatim>\<open>isEqualBlock\<close> agrees with the reference definition on every pair of blocks whose
  attribute objects have each key once: true when both are absent, false when exactly one
  is, true when both declare the same non-empty \<^verbatim>\<open>src\<close> whatever the contents, and
  otherwise true exactly when the contents are identical and the attribute maps are equal
  as sets of key-value pairs of the same size. Consequently a block compared with a copy of
  itself whose attributes are reordered is reported equal.
\<close>

theorem isEqualBlock_matches_reference:
  "(wfBlock a \<and> wfBlock b \<longrightarrow> isEqualBlock a b = blockEquals a b)
   \<and> (distinct (keys (attrs x)) \<and> mset as = mset (attrs x)
        \<longrightarrow> isEqualBlock (Some x) (Some (x\<lparr>attrs := as\<rparr>)))"
proof (intro conjI impI)
  assume "wfBlock a \<and> wfBlock b"
  then show "isEqualBlock a b = blockEquals a b"
    using isEqualBlock_blockEquals [of a b] by simp
next
  assume "distinct (keys (attrs x)) \<and> mset as = mset (attrs x)"
  then show "isEqualBlock (Some x) (Some (x\<lparr>attrs := as\<rparr>))"
    using isEqualBlock_reordered [of x as] by simp
qed



lemmas sample_defs = sampleDescriptor_def sampleBlock_def samplePlatform_def sampleParse_def
  sampleOptions_def emptyCaches_def sampleScriptParse_def sampleCaches_def

theorem isEqualBlock_matches_reference_witness:
  "wfBlock (Some (sampleBlock ''style'' ''a {}'' [(''lang'', AStr ''scss''), (''scoped'', ATrue)]))
   \<and> wfBlock (Some (sampleBlock ''style'' ''a {}'' [(''scoped'', ATrue), (''lang'', AStr ''scss'')]))
   \<and> isEqualBlock (Some (sampleBlock ''style'' ''a {}'' [(''lang'', AStr ''scss''), (''scoped'', ATrue)]))
        (Some (sampleBlock ''style'' ''a {}'' [(''scoped'', ATrue), (''lang'', AStr ''scss'')]))
   \<and> distinct (keys (attrs (sampleBlock ''style'' ''a {}'' [(''lang'', AStr ''scss''), (''scoped'', ATrue)])))
   \<and> mset [(''scoped'', ATrue), (''lang'', AStr ''scss'')]
       = mset (attrs (sampleBlock ''style'' ''a {}'' [(''lang'', AStr ''scss''), (''scoped'', ATrue)]))"
  using isEqualBlock_matches_reference
          [of "Some (sampleBlock ''style'' ''a {}'' [(''lang'', AStr ''scss''), (''scoped'', ATrue)])"
              "Some (sampleBlock ''style'' ''a {}'' [(''scoped'', ATrue), (''lang'', AStr ''scss'')])"
              "sampleBlock ''style'' ''a {}'' [(''lang'', AStr ''scss''), (''scoped'', ATrue)]"
              "[(''scoped'', ATrue), (''lang'', AStr ''scss'')]"]
  by (simp add: sample_defs wfBlock_def keys_def getAttr_def truthy_def)

text \<open>
  C7. When the behavior block and the behavior-setup block are both unchanged for
  \<^verbatim>\<open>isEqualBlock\<close>, \<^verbatim>\<open>hasScriptChanged\<close> reports true exactly when a resolved script with
  an import list is recorded for the previous descriptor and the new descriptor has no
  markup block or its force-reload predicate accepts that import list; with no recorded
  import list it reports false.
\<close>

theorem hasScriptChanged_unchanged_blocks:
  assumes "isEqualBlock (script prev) (script next)"
    and "isEqualBlock (scriptSetup prev) (scriptSetup next)"
  shows "hasScriptChanged g prev next
           = (\<exists>r prevImports. g prev False = Some r \<and> imports r = Some prevImports
                \<and> (template next = None \<or> shouldForceReload next prevImports))
         \<and> ((\<forall>r. g prev False = Some r \<longrightarrow> imports r = None) \<longrightarrow> \<not> hasScriptChanged g prev next)"
  using assms by (auto simp: hasScriptChanged_def prevImportsOf_def split: option.splits)

theorem hasScriptChanged_unchanged_blocks_witness:
  "isEqualBlock (script (sampleDescriptor ''/app/A.vue'')) (script (sampleDescriptor ''/app/A.vue''))
   \<and> isEqualBlock (scriptSetup (sampleDescriptor ''/app/A.vue''))
        (scriptSetup (sampleDescriptor ''/app/A.vue''))
   \<and> hasScriptChanged (\<lambda>d ssr. Some \<lparr>imports = Some []\<rparr>)
        (sampleDescriptor ''/app/A.vue'') (sampleDescriptor ''/app/A.vue'')
   \<and> \<not> hasScriptChanged (\<lambda>d ssr. None)
        (sampleDescriptor ''/app/A.vue'') (sampleDescriptor ''/app/A.vue'')"
proof -
  have s: "isEqualBlock (script (sampleDescriptor ''/app/A.vue'')) (script (sampleDescriptor ''/app/A.vue''))"
    by (simp add: sample_defs)
  have t: "isEqualBlock (scriptSetup (sampleDescriptor ''/app/A.vue''))
             (scriptSetup (sampleDescriptor ''/app/A.vue''))"
    by (simp add: sample_defs)
  have n: "template (sampleDescriptor ''/app/A.vue'') = None"
    by (simp add: sample_defs)
  show ?thesis
    using s t n
      hasScriptChanged_unchanged_blocks [OF s t, of "\<lambda>d ssr. Some \<lparr>imports = Some []\<rparr>"]
      hasScriptChanged_unchanged_blocks [OF s t, of "\<lambda>d ssr. None"]
    by simp
qed

section \<open>Properties of the descriptor cache\<close>

lemma createDescriptor_result:
  "fst (createDescriptor h f s opts hmr st) =
     \<lparr>descriptor = (descriptor (parse (compiler opts) s f (sourceMap opts)))
        \<lparr>id' := getHash h (slash h (pathNormalize h (pathRelative h (root opts) f))
                            @ (if isProduction opts then s else ''''))\<rparr>,
      errors = errors (parse (compiler opts) s f (sourceMap opts))\<rparr>"
  by (simp add: createDescriptor_def Let_def)

lemma createDescriptor_state:
  "snd (createDescriptor h f s opts hmr st) =
     (if hmr
      then st\<lparr>hmrCache := (hmrCache st)(f \<mapsto> descriptor (fst (createDescriptor h f s opts hmr st)))\<rparr>
      else st\<lparr>cache := (cache st)(f \<mapsto> descriptor (fst (createDescriptor h f s opts hmr st)))\<rparr>)"
  by (simp add: createDescriptor_def Let_def)

text \<open>
  C10. \<^verbatim>\<open>createDescriptor\<close> stores the descriptor it returns under the filename in the
  selected map, \<^verbatim>\<open>hmrCache\<close> when \<^verbatim>\<open>hmr\<close> is set and \<^verbatim>\<open>cache\<close> otherwise, whatever the
  list of parse errors is; the returned descriptor is the parsed one with its id stamped,
  and the errors are those of the parse.
\<close>

theorem createDescriptor_always_stores:
  "(if hmr then hmrCache (snd (createDescriptor h f s opts hmr st))
    else cache (snd (createDescriptor h f s opts hmr st))) f
     = Some (descriptor (fst (createDescriptor h f s opts hmr st)))
   \<and> descriptor (fst (createDescriptor h f s opts hmr st))
     = (descriptor (parse (compiler opts) s f (sourceMap opts)))
         \<lparr>id' := id' (descriptor (fst (createDescriptor h f s opts hmr st)))\<rparr>
   \<and> errors (fst (createDescriptor h f s opts hmr st))
     = errors (parse (compiler opts) s f (sourceMap opts))"
  by (simp add: createDescriptor_result createDescriptor_state)

theorem createDescriptor_always_stores_witness:
  "errors (fst (createDescriptor (samplePlatform Map.empty) ''/app/A.vue'' ''<p>''
                  (sampleOptions False) False
                  (emptyCaches\<lparr>cache := [''/app/A.vue'' \<mapsto> sampleDescriptor ''/app/A.vue'']\<rparr>)))
     = [''Element is missing end tag.'']
   \<and> cache (snd (createDescriptor (samplePlatform Map.empty) ''/app/A.vue'' ''<p>''
                   (sampleOptions False) False
                   (emptyCaches\<lparr>cache := [''/app/A.vue'' \<mapsto> sampleDescriptor ''/app/A.vue'']\<rparr>)))
        ''/app/A.vue''
     = Some ((sampleDescriptor ''/app/A.vue'')
               \<lparr>id' := ''euv.A'', template := Some (sampleBlock ''template'' ''<p>'' [])\<rparr>)"
  using createDescriptor_always_stores
          [of False "samplePlatform Map.empty" "''/app/A.vue''" "''<p>''" "sampleOptions False"
              "emptyCaches\<lparr>cache := [''/app/A.vue'' \<mapsto> sampleDescriptor ''/app/A.vue'']\<rparr>"]
  by (simp add: createDescriptor_result sample_defs getHash_def)



text \<open>
  C2, as the claim states it, fails: a file that is not cached and parses with an error
  makes \<^verbatim>\<open>getDescriptor\<close> with \<^verbatim>\<open>createIfNotFound\<close> and without \<^verbatim>\<open>hmr\<close> throw that error.
\<close>

theorem getDescriptor_throws_parse_error:
  "fst (getDescriptor (samplePlatform [''/app/A.vue'' \<mapsto> ''<p>'']) ''/app/A.vue''
          (sampleOptions False) True False emptyCaches)
     = Inl (Thrown ''Element is missing end tag.'')"
  by (simp add: getDescriptor_def split_beta createDescriptor_result sample_defs)

text \<open>
  C2, amended. For a file that is not in the selected map, \<^verbatim>\<open>getDescriptor\<close> with
  \<^verbatim>\<open>createIfNotFound\<close> propagates a failure of the file read; when the file is read and
  its parse reports errors, it throws the first of them if \<^verbatim>\<open>hmr\<close> is not set and returns
  the descriptor, without the errors, if \<^verbatim>\<open>hmr\<close> is set. In both cases the descriptor has
  been stored by \<^verbatim>\<open>createDescriptor\<close>.
\<close>

theorem getDescriptor_parse_errors:
  assumes "(if hmr then hmrCache st else cache st) f = None"
  shows "(readFileSync h f = Inl e \<longrightarrow>
            getDescriptor h f opts True hmr st = (Inl e, st))
         \<and> (readFileSync h f = Inr text
              \<and> errors (parse (compiler opts) text f (sourceMap opts)) \<noteq> [] \<longrightarrow>
            getDescriptor h f opts True hmr st
              = (if hmr
                 then Inr (Some (descriptor (fst (createDescriptor h f text opts hmr st))))
                 else Inl (Thrown (hd (errors (parse (compiler opts) text f (sourceMap opts))))),
                 snd (createDescriptor h f text opts hmr st)))"
  using assms
  by (simp add: getDescriptor_def split_beta createDescriptor_result)

theorem getDescriptor_parse_errors_witness:
  "(if True then hmrCache emptyCaches else cache emptyCaches) ''/app/A.vue'' = None
   \<and> readFileSync (samplePlatform [''/app/A.vue'' \<mapsto> ''<p>'']) ''/app/B.vue''
       = Inl (FileReadFailure ''/app/B.vue'')
   \<and> fst (getDescriptor (samplePlatform [''/app/A.vue'' \<mapsto> ''<p>'']) ''/app/B.vue''
            (sampleOptions False) True True emptyCaches)
       = Inl (FileReadFailure ''/app/B.vue'')
   \<and> readFileSync (samplePlatform [''/app/A.vue'' \<mapsto> ''<p>'']) ''/app/A.vue'' = Inr ''<p>''
   \<and> errors (parse (compiler (sampleOptions False)) ''<p>'' ''/app/A.vue''
               (sourceMap (sampleOptions False))) \<noteq> []
   \<and> fst (getDescriptor (samplePlatform [''/app/A.vue'' \<mapsto> ''<p>'']) ''/app/A.vue''
            (sampleOptions False) True True emptyCaches)
       = Inr (Some ((sampleDescriptor ''/app/A.vue'')
                      \<lparr>id' := ''euv.A'', template := Some (sampleBlock ''template'' ''<p>'' [])\<rparr>))"
proof -
  have c: "(if True then hmrCache emptyCaches else cache emptyCaches) ''/app/A.vue'' = None"
    by (simp add: emptyCaches_def)
  have d: "(if True then hmrCache emptyCaches else cache emptyCaches) ''/app/B.vue'' = None"
    by (simp add: emptyCaches_def)
  show ?thesis
    using getDescriptor_parse_errors
            [OF c, of "samplePlatform [''/app/A.vue'' \<mapsto> ''<p>'']" "FileReadFailure ''/app/B.vue''"
               "sampleOptions False" "''<p>''"]
          getDescriptor_parse_errors
            [OF d, of "samplePlatform [''/app/A.vue'' \<mapsto> ''<p>'']" "FileReadFailure ''/app/B.vue''"
               "sampleOptions False" "''<p>''"]
    by (simp add: createDescriptor_result sample_defs getHash_def)
qed

section \<open>Properties of the address encoder\<close>

lemma encodeURIComponent_true: "encodeURIComponent ''true'' = ''true''"
  by (simp add: encodeURIComponent_def encodeChar_def uriUnreserved_def isWordChar_def)

lemma attrsToQueryStep_fragment:
  "attrsToQueryStep (n, v) q =
     (if n \<in> {''id'', ''index'', ''src'', ''type'', ''lang'', ''module'', ''scoped'', ''generic''}
      then q
      else q @ ''&'' @ encodeURIComponent n
             @ (case v of
                  ATrue \<Rightarrow> ''=true''
                | AStr s \<Rightarrow> if s = '''' then '''' else ''='' @ encodeURIComponent s))"
  by (cases v)
     (simp_all add: attrsToQueryStep_def ignoreList_def attrTruthy_def attrString_def
        encodeURIComponent_true)

lemma fold_attrsToQueryStep:
  "fold attrsToQueryStep as q =
     q @ concat (map (\<lambda>nv. ''&'' @ encodeURIComponent (fst nv)
                        @ (case snd nv of
                             ATrue \<Rightarrow> ''=true''
                           | AStr s \<Rightarrow> if s = '''' then '''' else ''='' @ encodeURIComponent s))
                  (filter (\<lambda>nv. fst nv \<notin> {''id'', ''index'', ''src'', ''type'', ''lang'',
                                            ''module'', ''scoped'', ''generic''}) as))"
proof (induction as arbitrary: q)
  case Nil
  show ?case by simp
next
  case (Cons nv as)
  obtain n v where nv: "nv = (n, v)" by (cases nv)
  show ?case
    unfolding nv fold_Cons comp_apply Cons.IH attrsToQueryStep_fragment
    by simp
qed

text \<open>
  C3, as the claim states it, fails: an attribute whose value is the boolean \<^verbatim>\<open>true\<close> is
  emitted with the value part \<^verbatim>\<open>=true\<close>, not as a bare name.
\<close>

theorem attrsToQuery_boolean_not_bare:
  "attrsToQuery [(''functional'', ATrue)] None False = ''&functional=true''
   \<and> attrsToQuery [(''functional'', ATrue)] None False \<noteq> ''&functional''"
  by (simp add: attrsToQuery_def attrsToQueryStep_fragment truthy_def getAttr_def keys_def
        encodeURIComponent_def encodeChar_def uriUnreserved_def isWordChar_def)

text \<open>
  C3, amended. The query that \<^verbatim>\<open>attrsToQuery\<close> returns starts with one fragment for each
  attribute whose key is outside the reserved set, in the iteration order of the attributes:
  \<^verbatim>\<open>&name=true\<close> for the boolean \<^verbatim>\<open>true\<close>, \<^verbatim>\<open>&name=value\<close> for a non-empty string and the
  bare \<^verbatim>\<open>&name\<close> for the empty string, with name and value URL-encoded. What follows the
  fragments is empty or the language suffix.
\<close>

theorem attrsToQuery_fragments:
  "\<exists>langPart.
     attrsToQuery as langFallback forceLangFallback =
       concat (map (\<lambda>nv. ''&'' @ encodeURIComponent (fst nv)
                      @ (case snd nv of
                           ATrue \<Rightarrow> ''=true''
                         | AStr s \<Rightarrow> if s = '''' then '''' else ''='' @ encodeURIComponent s))
                 (filter (\<lambda>nv. fst nv \<notin> {''id'', ''index'', ''src'', ''type'', ''lang'',
                                           ''module'', ''scoped'', ''generic''}) as))
       @ langPart
     \<and> (langPart = '''' \<or> prefix ''&lang.'' langPart)"
proof (cases "truthy langFallback
               \<or> (case getAttr as ''lang'' of None \<Rightarrow> False | Some v \<Rightarrow> attrTruthy v)")
  case False
  then have "attrsToQuery as langFallback forceLangFallback = fold attrsToQueryStep as ''''"
    by (simp add: attrsToQuery_def)
  then show ?thesis
    by (simp add: fold_attrsToQueryStep)
next
  case True
  then have "attrsToQuery as langFallback forceLangFallback =
               fold attrsToQueryStep as '''' @ ''&lang.''
                 @ (if ''lang'' \<in> set (keys as)
                    then (if forceLangFallback then showOpt langFallback
                          else (case getAttr as ''lang'' of
                                  None \<Rightarrow> ''undefined''
                                | Some v \<Rightarrow> attrString v))
                    else showOpt langFallback)"
    by (simp add: attrsToQuery_def)
  then show ?thesis
    by (simp add: fold_attrsToQueryStep)
qed

theorem attrsToQuery_fragments_witness:
  "attrsToQuery [(''lang'', AStr ''scss''), (''media'', AStr ''a b''), (''functional'', ATrue),
                 (''scoped'', ATrue), (''title'', AStr '''')] (Some ''css'') False
     = ''&media=a%20b&functional=true&title&lang.scss''"
proof -
  obtain langPart where
    e: "attrsToQuery [(''lang'', AStr ''scss''), (''media'', AStr ''a b''), (''functional'', ATrue),
                      (''scoped'', ATrue), (''title'', AStr '''')] (Some ''css'') False
          = concat (map (\<lambda>nv. ''&'' @ encodeURIComponent (fst nv)
                          @ (case snd nv of
                               ATrue \<Rightarrow> ''=true''
                             | AStr s \<Rightarrow> if s = '''' then '''' else ''='' @ encodeURIComponent s))
                     (filter (\<lambda>nv. fst nv \<notin> {''id'', ''index'', ''src'', ''type'', ''lang'',
                                               ''module'', ''scoped'', ''generic''})
                        [(''lang'', AStr ''scss''), (''media'', AStr ''a b''),
                         (''functional'', ATrue), (''scoped'', ATrue), (''title'', AStr '''')]))
            @ langPart"
    using attrsToQuery_fragments
            [of "[(''lang'', AStr ''scss''), (''media'', AStr ''a b''), (''functional'', ATrue),
                  (''scoped'', ATrue), (''title'', AStr '''')]" "Some ''css''" False]
    by blast
  have v: "attrsToQuery [(''lang'', AStr ''scss''), (''media'', AStr ''a b''), (''functional'', ATrue),
                      (''scoped'', ATrue), (''title'', AStr '''')] (Some ''css'') False
           = ''&media=a%20b&functional=true&title&lang.scss''"
    by (simp add: attrsToQuery_def attrsToQueryStep_fragment truthy_def getAttr_def keys_def
          attrTruthy_def attrString_def
          encodeURIComponent_def encodeChar_def uriUnreserved_def isWordChar_def percentByte_def)
  from e v show ?thesis by simp
qed

lemma setSrcDescriptor_cache:
  "cache (setSrcDescriptor p desc sc st)
     = (cache st)((if sc then p @ ''?src='' @ id' desc else p) \<mapsto> desc)"
  by (simp add: setSrcDescriptor_def)

lemma genStyleRequest_linked:
  assumes "truthy (src style)"
  shows "snd (genStyleRequest resolve desc ace i style st)
         = setSrcDescriptor (stripQuery (srcFileOf resolve (the (src style)) desc)) desc
             (scoped style) st"
  using assms by (simp add: genStyleRequest_def Let_def linkSrcToDescriptor_def)

lemma genStyleRequest_address:
  assumes "truthy (src style)"
  shows "fst (genStyleRequest resolve desc ace i style st)
         = (if (case module style of None \<Rightarrow> False | Some v \<Rightarrow> attrTruthy v) then
              (if ace
               then Inl (Error ''<style module> is not supported in custom elements mode.'')
               else Inr (moduleRequest
                           (the (src style) @ ''?vue&type=style&index='' @ showNat i
                              @ styleSrcQuery desc style @ (if ace then ''&inline'' else '''')
                              @ styleScopedQuery desc style
                              @ attrsToQuery (attrs style) (Some ''css'') False)))
            else Inr (the (src style) @ ''?vue&type=style&index='' @ showNat i
                        @ styleSrcQuery desc style @ (if ace then ''&inline'' else '''')
                        @ styleScopedQuery desc style
                        @ attrsToQuery (attrs style) (Some ''css'') False))"
  using assms by (simp add: genStyleRequest_def Let_def)

text \<open>
  The rewrite for a \<^verbatim>\<open>module\<close> block touches nothing before the last ampersand of the
  request, and the query of the attributes ends with the language suffix after an ampersand.
\<close>

lemma moduleRequest_skip:
  assumes "\<not> isWordChar c" and "c \<noteq> CHR ''.''"
  shows "moduleRequest (p @ c # t) = p @ c # moduleRequest t"
  using assms by (induction p) (simp_all add: list_all_iff)

lemma attrsToQuery_css_suffix:
  "\<exists>q x. attrsToQuery as (Some ''css'') False = q @ CHR ''&'' # x"
proof (cases "''lang'' \<in> set (keys as)")
  case True
  then have "attrsToQuery as (Some ''css'') False
             = fold attrsToQueryStep as ''''
               @ CHR ''&'' # (''lang.'' @ (case getAttr as ''lang'' of
                                          None \<Rightarrow> ''undefined''
                                        | Some v \<Rightarrow> attrString v))"
    by (simp add: attrsToQuery_def truthy_def)
  then show ?thesis by blast
next
  case False
  then have "attrsToQuery as (Some ''css'') False
             = fold attrsToQueryStep as '''' @ CHR ''&'' # (''lang.'' @ showOpt (Some ''css''))"
    by (simp add: attrsToQuery_def truthy_def)
  then show ?thesis by blast
qed

lemma genStyleRequest_emitted_prefix:
  assumes "truthy (src style)"
    and "fst (genStyleRequest resolve desc ace i style st) = Inr a"
  shows "prefix (the (src style) @ ''?vue&type=style&index='' @ showNat i
                   @ styleSrcQuery desc style @ (if ace then ''&inline'' else '''')
                   @ styleScopedQuery desc style) a"
proof -
  let ?pre = "the (src style) @ ''?vue&type=style&index='' @ showNat i
                @ styleSrcQuery desc style @ (if ace then ''&inline'' else '''')
                @ styleScopedQuery desc style"
  obtain q x where qx: "attrsToQuery (attrs style) (Some ''css'') False = q @ CHR ''&'' # x"
    using attrsToQuery_css_suffix by blast
  have amp: "\<not> isWordChar (CHR ''&'')" "CHR ''&'' \<noteq> CHR ''.''"
    by (simp_all add: isWordChar_def)
  have m: "moduleRequest (?pre @ attrsToQuery (attrs style) (Some ''css'') False)
           = ?pre @ q @ CHR ''&'' # moduleRequest x"
    using moduleRequest_skip [OF amp, of "?pre @ q" x] by (simp add: qx)
  have "a = ?pre @ attrsToQuery (attrs style) (Some ''css'') False
        \<or> a = moduleRequest (?pre @ attrsToQuery (attrs style) (Some ''css'') False)"
    using assms(2) unfolding genStyleRequest_address [OF assms(1)]
    by (auto split: if_splits)
  then show ?thesis
  proof
    assume "a = ?pre @ attrsToQuery (attrs style) (Some ''css'') False"
    then show ?thesis by simp
  next
    assume "a = moduleRequest (?pre @ attrsToQuery (attrs style) (Some ''css'') False)"
    then have "a = ?pre @ (q @ CHR ''&'' # moduleRequest x)"
      using m by simp
    then show ?thesis by simp
  qed
qed

lemma getSrcDescriptor_after_link:
  assumes "truthy (src style)"
    and "VueQuery.src q = Some v" and "''&src='' @ v = styleSrcQuery desc style"
    and "VueQuery.scoped q = (styleScopedQuery desc style \<noteq> '''')"
  shows "getSrcDescriptor (setSrcDescriptor p desc (scoped style) st) p q = Some desc"
proof (cases "scoped style")
  case True
  with assms have "v = id' desc" "VueQuery.scoped q"
    by (simp_all add: styleSrcQuery_def styleScopedQuery_def)
  with True assms(2) show ?thesis
    by (simp add: getSrcDescriptor_def setSrcDescriptor_def showOpt_def)
next
  case False
  with assms have "\<not> VueQuery.scoped q"
    by (simp add: styleScopedQuery_def)
  with False show ?thesis
    by (simp add: getSrcDescriptor_def setSrcDescriptor_def)
qed

text \<open>
  C8. For a style block with a non-empty \<^verbatim>\<open>src\<close>: the marker of \<^verbatim>\<open>genStyleCode\<close> is
  \<^verbatim>\<open>&src=true\<close> when the block is unscoped and \<^verbatim>\<open>&src=\<close> followed by the id of the owning
  descriptor when it is scoped. The round of the loop throws for a \<^verbatim>\<open>module\<close> block in
  custom-element mode; otherwise it emits the address built from the path, the index, the
  marker and the other fragments, rewritten to \<^verbatim>\<open>.module.\<close> for a \<^verbatim>\<open>module\<close> block, and
  every address it emits starts with the path, the index, the marker, the inline fragment
  and the scoped fragment. \<^verbatim>\<open>setSrcDescriptor\<close> registers the descriptor under the plain
  path when unscoped and under the path followed by \<^verbatim>\<open>?src=\<close> and the id when scoped, which
  the round has done whether it throws or not; and for every query whose \<^verbatim>\<open>src\<close> is the
  emitted marker and whose \<^verbatim>\<open>scoped\<close> flag is set exactly when a \<^verbatim>\<open>&scoped=\<close> fragment was
  emitted, \<^verbatim>\<open>getSrcDescriptor\<close> on the linked path gives back the owning descriptor.
\<close>

theorem style_src_marker_matches_link_key:
  assumes "truthy (src style)"
  shows "styleSrcQuery desc style = (if scoped style then ''&src='' @ id' desc else ''&src=true'')
         \<and> fst (genStyleRequest resolve desc ace i style st)
             = (if (case module style of None \<Rightarrow> False | Some v \<Rightarrow> attrTruthy v) then
                  (if ace
                   then Inl (Error ''<style module> is not supported in custom elements mode.'')
                   else Inr (moduleRequest
                               (the (src style) @ ''?vue&type=style&index='' @ showNat i
                                  @ styleSrcQuery desc style @ (if ace then ''&inline'' else '''')
                                  @ styleScopedQuery desc style
                                  @ attrsToQuery (attrs style) (Some ''css'') False)))
                else Inr (the (src style) @ ''?vue&type=style&index='' @ showNat i
                            @ styleSrcQuery desc style @ (if ace then ''&inline'' else '''')
                            @ styleScopedQuery desc style
                            @ attrsToQuery (attrs style) (Some ''css'') False))
         \<and> (\<forall>a. fst (genStyleRequest resolve desc ace i style st) = Inr a \<longrightarrow>
                prefix (the (src style) @ ''?vue&type=style&index='' @ showNat i
                          @ styleSrcQuery desc style @ (if ace then ''&inline'' else '''')
                          @ styleScopedQuery desc style) a)
         \<and> cache (setSrcDescriptor p desc sc st)
             = (cache st)((if sc then p @ ''?src='' @ id' desc else p) \<mapsto> desc)
         \<and> snd (genStyleRequest resolve desc ace i style st)
             = setSrcDescriptor (stripQuery (srcFileOf resolve (the (src style)) desc)) desc
                 (scoped style) st
         \<and> (VueQuery.src q = Some v \<and> ''&src='' @ v = styleSrcQuery desc style
              \<and> VueQuery.scoped q = (styleScopedQuery desc style \<noteq> '''')
             \<longrightarrow> getSrcDescriptor (snd (genStyleRequest resolve desc ace i style st))
                   (stripQuery (srcFileOf resolve (the (src style)) desc)) q
                 = Some desc)"
proof (intro conjI impI allI)
  show "styleSrcQuery desc style = (if scoped style then ''&src='' @ id' desc else ''&src=true'')"
    using assms by (simp add: styleSrcQuery_def)
  show "fst (genStyleRequest resolve desc ace i style st)
          = (if (case module style of None \<Rightarrow> False | Some v \<Rightarrow> attrTruthy v) then
               (if ace
                then Inl (Error ''<style module> is not supported in custom elements mode.'')
                else Inr (moduleRequest
                            (the (src style) @ ''?vue&type=style&index='' @ showNat i
                               @ styleSrcQuery desc style @ (if ace then ''&inline'' else '''')
                               @ styleScopedQuery desc style
                               @ attrsToQuery (attrs style) (Some ''css'') False)))
             else Inr (the (src style) @ ''?vue&type=style&index='' @ showNat i
                         @ styleSrcQuery desc style @ (if ace then ''&inline'' else '''')
                         @ styleScopedQuery desc style
                         @ attrsToQuery (attrs style) (Some ''css'') False))"
    using assms by (rule genStyleRequest_address)
  show "cache (setSrcDescriptor p desc sc st)
          = (cache st)((if sc then p @ ''?src='' @ id' desc else p) \<mapsto> desc)"
    by (rule setSrcDescriptor_cache)
  show "snd (genStyleRequest resolve desc ace i style st)
          = setSrcDescriptor (stripQuery (srcFileOf resolve (the (src style)) desc)) desc
              (scoped style) st"
    using assms by (rule genStyleRequest_linked)
next
  fix a
  assume "fst (genStyleRequest resolve desc ace i style st) = Inr a"
  with assms show "prefix (the (src style) @ ''?vue&type=style&index='' @ showNat i
                             @ styleSrcQuery desc style @ (if ace then ''&inline'' else '''')
                             @ styleScopedQuery desc style) a"
    by (rule genStyleRequest_emitted_prefix)
next
  assume q: "VueQuery.src q = Some v \<and> ''&src='' @ v = styleSrcQuery desc style
             \<and> VueQuery.scoped q = (styleScopedQuery desc style \<noteq> '''')"
  have "getSrcDescriptor
          (setSrcDescriptor (stripQuery (srcFileOf resolve (the (src style)) desc)) desc
             (scoped style) st)
          (stripQuery (srcFileOf resolve (the (src style)) desc)) q = Some desc"
    using assms q [THEN conjunct1] q [THEN conjunct2, THEN conjunct1]
      q [THEN conjunct2, THEN conjunct2]
    by (rule getSrcDescriptor_after_link)
  then show "getSrcDescriptor (snd (genStyleRequest resolve desc ace i style st))
               (stripQuery (srcFileOf resolve (the (src style)) desc)) q = Some desc"
    using assms by (simp only: genStyleRequest_linked)
qed

theorem style_src_marker_matches_link_key_witness:
  "truthy (src ((sampleBlock ''style'' ''''
                   [(''src'', AStr ''./a.css''), (''scoped'', ATrue), (''module'', ATrue)])
                  \<lparr>src := Some ''./a.css'', scoped := True, module := Some ATrue\<rparr>))
   \<and> fst (genStyleRequest (\<lambda>s f. Some ''/app/a.css?v=1'')
            ((sampleDescriptor ''/app/A.vue'')\<lparr>id' := ''7ba5bd90''\<rparr>) False 0
            ((sampleBlock ''style'' ''''
                [(''src'', AStr ''./a.css''), (''scoped'', ATrue), (''module'', ATrue)])
               \<lparr>src := Some ''./a.css'', scoped := True, module := Some ATrue\<rparr>) emptyCaches)
       = Inr ''./a.css?vue&type=style&index=0&src=7ba5bd90&scoped=7ba5bd90&lang.module.css''
   \<and> fst (genStyleRequest (\<lambda>s f. Some ''/app/a.css?v=1'')
            ((sampleDescriptor ''/app/A.vue'')\<lparr>id' := ''7ba5bd90''\<rparr>) True 0
            ((sampleBlock ''style'' ''''
                [(''src'', AStr ''./a.css''), (''scoped'', ATrue), (''module'', ATrue)])
               \<lparr>src := Some ''./a.css'', scoped := True, module := Some ATrue\<rparr>) emptyCaches)
       = Inl (Error ''<style module> is not supported in custom elements mode.'')
   \<and> stripQuery (srcFileOf (\<lambda>s f. Some ''/app/a.css?v=1'') ''./a.css''
                   ((sampleDescriptor ''/app/A.vue'')\<lparr>id' := ''7ba5bd90''\<rparr>))
       = ''/app/a.css''
   \<and> getSrcDescriptor
         (snd (genStyleRequest (\<lambda>s f. Some ''/app/a.css?v=1'')
                 ((sampleDescriptor ''/app/A.vue'')\<lparr>id' := ''7ba5bd90''\<rparr>) False 0
                 ((sampleBlock ''style'' ''''
                     [(''src'', AStr ''./a.css''), (''scoped'', ATrue), (''module'', ATrue)])
                    \<lparr>src := Some ''./a.css'', scoped := True, module := Some ATrue\<rparr>)
                 emptyCaches))
         ''/app/a.css'' \<lparr>VueQuery.src = Some ''7ba5bd90'', scoped = True\<rparr>
       = Some ((sampleDescriptor ''/app/A.vue'')\<lparr>id' := ''7ba5bd90''\<rparr>)"
proof -
  let ?style = "(sampleBlock ''style'' ''''
                   [(''src'', AStr ''./a.css''), (''scoped'', ATrue), (''module'', ATrue)])
                  \<lparr>src := Some ''./a.css'', scoped := True, module := Some ATrue\<rparr>"
  let ?desc = "(sampleDescriptor ''/app/A.vue'')\<lparr>id' := ''7ba5bd90''\<rparr>"
  have t: "truthy (src ?style)"
    by (simp add: truthy_def sampleBlock_def)
  have p: "stripQuery (srcFileOf (\<lambda>s f. Some ''/app/a.css?v=1'') ''./a.css'' ?desc)
           = ''/app/a.css''"
    by (simp add: srcFileOf_def truthy_def isLineTerminator_def)
  have a: "attrsToQuery [(''src'', AStr ''./a.css''), (''scoped'', ATrue), (''module'', ATrue)]
             (Some ''css'') False = ''&lang.css''"
    by (simp add: attrsToQuery_def attrsToQueryStep_fragment truthy_def getAttr_def keys_def
          showOpt_def)
  have amp: "\<not> isWordChar (CHR ''&'')" "CHR ''&'' \<noteq> CHR ''.''"
    by (simp_all add: isWordChar_def)
  have tail: "moduleRequest ''lang.css'' = ''lang.module.css''"
    by (simp add: isWordChar_def)
  have mr: "moduleRequest
              ''./a.css?vue&type=style&index=0&src=7ba5bd90&scoped=7ba5bd90&lang.css''
            = ''./a.css?vue&type=style&index=0&src=7ba5bd90&scoped=7ba5bd90&lang.module.css''"
    using moduleRequest_skip
            [OF amp, of "''./a.css?vue&type=style&index=0&src=7ba5bd90&scoped=7ba5bd90''"
               "''lang.css''"]
    by (simp add: tail del: moduleRequest.simps)
  note thm1 = style_src_marker_matches_link_key
        [OF t, of ?desc "\<lambda>s f. Some ''/app/a.css?v=1''" False 0 emptyCaches "''/app/a.css''" True
           "\<lparr>VueQuery.src = Some ''7ba5bd90'', scoped = True\<rparr>" "''7ba5bd90''"]
  note thm2 = style_src_marker_matches_link_key
        [OF t, of ?desc "\<lambda>s f. Some ''/app/a.css?v=1''" True 0 emptyCaches "''/app/a.css''" True
           "\<lparr>VueQuery.src = Some ''7ba5bd90'', scoped = True\<rparr>" "''7ba5bd90''"]
  show ?thesis
    using t p thm1 thm2
    by (simp add: a mr sampleBlock_def sampleDescriptor_def styleSrcQuery_def
          styleScopedQuery_def truthy_def attrTruthy_def getSrcDescriptor_def
          setSrcDescriptor_def emptyCaches_def showOpt_def showNat.simps
          del: moduleRequest.simps)
qed

section \<open>Properties of the source map merge\<close>

lemma newlineMatches_count:
  "newlineMatches s = length (filter (\<lambda>c. c = CHR 0x0A) s)"
  by (induction s rule: newlineMatches.induct) auto

lemma fold_shiftInto_mappings:
  "mappings (fold (shiftInto k) ms gen) =
     mappings gen
     @ map (\<lambda>m. \<lparr>generatedLine = generatedLine m + k, generatedColumn = generatedColumn m,
                  source = source m, originalLine = originalLine m,
                  originalColumn = originalColumn m, name = None\<rparr>)
         (filter (\<lambda>m. source m \<noteq> None) ms)"
proof (induction ms arbitrary: gen)
  case Nil
  show ?case by simp
next
  case (Cons m ms)
  show ?case
  proof (cases "source m")
    case None
    then have "shiftInto k m gen = gen" by (simp add: shiftInto_def)
    with None Cons.IH [of gen] show ?thesis by simp
  next
    case (Some s)
    then have "mappings (shiftInto k m gen) =
                 mappings gen
                 @ [\<lparr>generatedLine = generatedLine m + k, generatedColumn = generatedColumn m,
                      source = source m, originalLine = originalLine m,
                      originalColumn = originalColumn m, name = None\<rparr>]"
      by (simp add: shiftInto_def addMapping_def)
    with Some Cons.IH [of "shiftInto k m gen"] show ?thesis by simp
  qed
qed

lemma resolvedMapOf_both:
  assumes "sourceMap opts"
  shows "resolvedMapOf opts code (Some sm) (Some tm) =
           Some ((fold (shiftInto (newlineMatches code + 1)) (mappings tm) sm)
                   \<lparr>sourcesContent := sourcesContent tm\<rparr>)"
  using assms by (simp add: resolvedMapOf_def Let_def)

text \<open>
  C5, as the claim states it, fails in two places: an entry of the template map that has no
  source is left out of the merged map, and with source maps switched off in the options a
  script map that exists is not passed through.
\<close>

theorem resolvedMapOf_drops_sourceless_entry:
  "resolvedMapOf (sampleOptions False) [CHR ''a'', CHR 0x0A, CHR ''b'']
     (Some \<lparr>sources = [''A.vue''], sourcesContent = Some [Some ''old''], mappings = []\<rparr>)
     (Some \<lparr>sources = [''A.vue''], sourcesContent = Some [Some ''new''],
            mappings = [\<lparr>generatedLine = 1, generatedColumn = 0, source = None,
                          originalLine = None, originalColumn = None, name = None\<rparr>]\<rparr>)
     = Some \<lparr>sources = [''A.vue''], sourcesContent = Some [Some ''new''], mappings = []\<rparr>
   \<and> returnedMap
         (resolvedMapOf ((sampleOptions False)\<lparr>sourceMap := False\<rparr>) ''a''
            (Some \<lparr>sources = [''A.vue''], sourcesContent = Some [Some ''old''], mappings = []\<rparr>)
            None)
     = \<lparr>sources = [], sourcesContent = None, mappings = []\<rparr>"
  by (simp add: resolvedMapOf_def returnedMap_def sampleOptions_def shiftInto_def)

text \<open>
  C5, amended. With source maps switched on in the options: when both maps exist, the
  merged map holds the entries of the script map followed by one entry for each entry of
  the template map that has a source, with the same source and original position, the
  generated line raised by the number of newline characters of the script code plus one and
  the generated column unchanged, so each of these lines is at least that offset (at least
  5 after 4 newlines); entries without a source are left out; the contents of the sources
  are those of the template map. When one map exists it is the result, and when none exists
  the returned map has no entries.
\<close>

theorem resolvedMapOf_stitches:
  assumes "sourceMap opts"
  shows "(\<exists>merged.
            resolvedMapOf opts code (Some sm) (Some tm) = Some merged
            \<and> mappings merged =
                mappings sm
                @ map (\<lambda>m. \<lparr>generatedLine =
                               generatedLine m + (length (filter (\<lambda>c. c = CHR 0x0A) code) + 1),
                             generatedColumn = generatedColumn m,
                             source = source m, originalLine = originalLine m,
                             originalColumn = originalColumn m, name = None\<rparr>)
                    (filter (\<lambda>m. source m \<noteq> None) (mappings tm))
            \<and> sourcesContent merged = sourcesContent tm
            \<and> (\<forall>m' \<in> set (drop (length (mappings sm)) (mappings merged)).
                  length (filter (\<lambda>c. c = CHR 0x0A) code) + 1 \<le> generatedLine m')
            \<and> (length (filter (\<lambda>c. c = CHR 0x0A) code) = 4 \<longrightarrow>
                  (\<forall>m' \<in> set (drop (length (mappings sm)) (mappings merged)).
                     5 \<le> generatedLine m')))
         \<and> resolvedMapOf opts code (Some sm) None = Some sm
         \<and> resolvedMapOf opts code None (Some tm) = Some tm
         \<and> returnedMap (resolvedMapOf opts code (Some sm) None) = sm
         \<and> returnedMap (resolvedMapOf opts code None (Some tm)) = tm
         \<and> returnedMap (resolvedMapOf opts code None None)
             = \<lparr>sources = [], sourcesContent = None, mappings = []\<rparr>"
proof -
  let ?k = "length (filter (\<lambda>c. c = CHR 0x0A) code) + 1"
  let ?merged = "(fold (shiftInto ?k) (mappings tm) sm)\<lparr>sourcesContent := sourcesContent tm\<rparr>"
  have r: "resolvedMapOf opts code (Some sm) (Some tm) = Some ?merged"
    using assms by (simp add: resolvedMapOf_both newlineMatches_count)
  have m: "mappings ?merged =
             mappings sm
             @ map (\<lambda>m. \<lparr>generatedLine = generatedLine m + ?k,
                          generatedColumn = generatedColumn m,
                          source = source m, originalLine = originalLine m,
                          originalColumn = originalColumn m, name = None\<rparr>)
                 (filter (\<lambda>m. source m \<noteq> None) (mappings tm))"
    by (simp add: fold_shiftInto_mappings)
  have s: "sourcesContent ?merged = sourcesContent tm"
    by simp
  have b: "\<forall>m' \<in> set (drop (length (mappings sm)) (mappings ?merged)). ?k \<le> generatedLine m'"
    unfolding m by auto
  have both: "\<exists>merged.
            resolvedMapOf opts code (Some sm) (Some tm) = Some merged
            \<and> mappings merged =
                mappings sm
                @ map (\<lambda>m. \<lparr>generatedLine = generatedLine m + ?k,
                             generatedColumn = generatedColumn m,
                             source = source m, originalLine = originalLine m,
                             originalColumn = originalColumn m, name = None\<rparr>)
                    (filter (\<lambda>m. source m \<noteq> None) (mappings tm))
            \<and> sourcesContent merged = sourcesContent tm
            \<and> (\<forall>m' \<in> set (drop (length (mappings sm)) (mappings merged)).
                  ?k \<le> generatedLine m')
            \<and> (length (filter (\<lambda>c. c = CHR 0x0A) code) = 4 \<longrightarrow>
                  (\<forall>m' \<in> set (drop (length (mappings sm)) (mappings merged)).
                     5 \<le> generatedLine m'))"
  proof (intro exI [of _ ?merged] conjI impI)
    show "resolvedMapOf opts code (Some sm) (Some tm) = Some ?merged" by (rule r)
    show "mappings ?merged =
             mappings sm
             @ map (\<lambda>m. \<lparr>generatedLine = generatedLine m + ?k,
                          generatedColumn = generatedColumn m,
                          source = source m, originalLine = originalLine m,
                          originalColumn = originalColumn m, name = None\<rparr>)
                 (filter (\<lambda>m. source m \<noteq> None) (mappings tm))" by (rule m)
    show "sourcesContent ?merged = sourcesContent tm" by (rule s)
    show "\<forall>m' \<in> set (drop (length (mappings sm)) (mappings ?merged)). ?k \<le> generatedLine m'"
      by (rule b)
  next
    assume "length (filter (\<lambda>c. c = CHR 0x0A) code) = 4"
    with b show "\<forall>m' \<in> set (drop (length (mappings sm)) (mappings ?merged)). 5 \<le> generatedLine m'"
      by simp
  qed
  have one: "resolvedMapOf opts code (Some sm) None = Some sm"
    "resolvedMapOf opts code None (Some tm) = Some tm"
    "resolvedMapOf opts code None None = None"
    using assms by (simp_all add: resolvedMapOf_def)
  from both one show ?thesis
    by (simp add: returnedMap_def)
qed

theorem resolvedMapOf_stitches_witness:
  "sourceMap (sampleOptions False)
   \<and> resolvedMapOf (sampleOptions False)
       [CHR ''a'', CHR 0x0A, CHR 0x0D, CHR 0x0A, CHR ''b'', CHR 0x0A, CHR 0x0A]
       (Some \<lparr>sources = [''A.vue''], sourcesContent = Some [Some ''old''],
              mappings = [\<lparr>generatedLine = 1, generatedColumn = 4, source = Some ''A.vue'',
                            originalLine = Some 2, originalColumn = Some 0, name = None\<rparr>]\<rparr>)
       (Some \<lparr>sources = [''A.vue''], sourcesContent = Some [Some ''new''],
              mappings = [\<lparr>generatedLine = 1, generatedColumn = 7, source = Some ''A.vue'',
                            originalLine = Some 9, originalColumn = Some 3, name = Some ''x''\<rparr>,
                          \<lparr>generatedLine = 2, generatedColumn = 0, source = None,
                            originalLine = None, originalColumn = None, name = None\<rparr>]\<rparr>)
     = Some \<lparr>sources = [''A.vue''], sourcesContent = Some [Some ''new''],
             mappings = [\<lparr>generatedLine = 1, generatedColumn = 4, source = Some ''A.vue'',
                           originalLine = Some 2, originalColumn = Some 0, name = None\<rparr>,
                         \<lparr>generatedLine = 6, generatedColumn = 7, source = Some ''A.vue'',
                           originalLine = Some 9, originalColumn = Some 3, name = None\<rparr>]\<rparr>"
proof -
  have h: "sourceMap (sampleOptions False)" by (simp add: sampleOptions_def)
  show ?thesis
    using h
      resolvedMapOf_stitches
        [OF h, of "[CHR ''a'', CHR 0x0A, CHR 0x0D, CHR 0x0A, CHR ''b'', CHR 0x0A, CHR 0x0A]"
           "\<lparr>sources = [''A.vue''], sourcesContent = Some [Some ''old''],
              mappings = [\<lparr>generatedLine = 1, generatedColumn = 4, source = Some ''A.vue'',
                            originalLine = Some 2, originalColumn = Some 0, name = None\<rparr>]\<rparr>"
           "\<lparr>sources = [''A.vue''], sourcesContent = Some [Some ''new''],
              mappings = [\<lparr>generatedLine = 1, generatedColumn = 7, source = Some ''A.vue'',
                            originalLine = Some 9, originalColumn = Some 3, name = Some ''x''\<rparr>,
                          \<lparr>generatedLine = 2, generatedColumn = 0, source = None,
                            originalLine = None, originalColumn = None, name = None\<rparr>]\<rparr>"]
    by (simp add: resolvedMapOf_def sampleOptions_def shiftInto_def addMapping_def)
qed

section \<open>Properties of the hot update classification\<close>

lemma setAdd_member: "x \<in> set (setAdd m s) = (x = m \<or> x \<in> set s)"
  by (auto simp: setAdd_def)

lemma isEqualBlock_refl: "isEqualBlock b b"
  by (cases b) (simp_all add: list_all_iff)

lemma isEqualBlock_content:
  assumes "\<not> truthy (src a)" "content a \<noteq> content b"
  shows "\<not> isEqualBlock (Some a) (Some b)"
  using assms by simp

text \<open>The flag of the style loop: some index of the new list is new or differs.\<close>

lemma snd_styleStep:
  "snd (styleStep mods mainModule ps ns i acc) =
     (snd acc \<or> at ps i = None \<or> \<not> isEqualBlock (at ps i) (Some (ns ! i)))"
  by (auto simp: styleStep_def Let_def split: option.splits)

lemma snd_fold_styleStep:
  "snd (fold (styleStep mods mainModule ps ns) [0..<n] acc) =
     (snd acc \<or> (\<exists>i<n. at ps i = None \<or> \<not> isEqualBlock (at ps i) (Some (ns ! i))))"
proof (induction n)
  case 0
  show ?case by simp
next
  case (Suc n)
  show ?case
    by (simp add: Suc.IH snd_styleStep less_Suc_eq) blast
qed

lemma fst_styleStep_mono:
  assumes "x \<in> set (fst acc)"
  shows "x \<in> set (fst (styleStep mods mainModule ps ns i acc))"
  using assms by (auto simp: styleStep_def Let_def setAdd_member split: option.splits)

lemma fst_fold_styleStep_mono:
  "x \<in> set (fst acc) \<Longrightarrow> x \<in> set (fst (fold (styleStep mods mainModule ps ns) is acc))"
  by (induction "is" arbitrary: acc) (simp_all add: fst_styleStep_mono)

lemma customStep_mono:
  assumes "x \<in> set a"
  shows "x \<in> set (customStep mods mainModule ps ns i a)"
  using assms by (auto simp: customStep_def Let_def setAdd_member split: option.splits)

lemma fold_customStep_mono:
  "x \<in> set a \<Longrightarrow> x \<in> set (fold (customStep mods mainModule ps ns) is a)"
  by (induction "is" arbitrary: a) (simp_all add: customStep_mono)

lemma set_fold_setAdd:
  "set (fold (\<lambda>m. setAdd (Some m)) xs a) = set a \<union> Some ` set xs"
  by (induction xs arbitrary: a) (auto simp: setAdd_member)

lemma fold_setAdd_mono:
  "x \<in> set a \<Longrightarrow> x \<in> set (fold (\<lambda>m. setAdd (Some m)) xs a)"
  by (simp add: set_fold_setAdd)

lemma returned_member:
  "m \<in> set (map the (filter (\<lambda>x. x \<noteq> None) a)) = (Some m \<in> set a)"
  by (induction a) auto

text \<open>The kinds a run records.\<close>

lemma classify_updateType:
  "updateType (classify css g mods prev next) =
     (if \<not> isEqualBlock (template next) (template prev) then [''template''] else [])
     @ (if \<exists>i<length (styles next).
             at (styles prev) i = None
             \<or> \<not> isEqualBlock (at (styles prev) i) (Some (styles next ! i))
        then [''style''] else [])"
  unfolding classify_def Let_def
  by (simp only: HotUpdate.select_convs snd_fold_styleStep) simp

text \<open>An entry added by one of the first rules is still there at the end.\<close>

lemma classify_script_member:
  assumes "hasScriptChanged g prev next"
    and "(case getScriptModule mods of Some s \<Rightarrow> Some s | None \<Rightarrow> getMainModule mods) = Some m"
  shows "m \<in> set (returned (classify css g mods prev next))"
  using assms unfolding classify_def Let_def
  by (simp only: HotUpdate.select_convs returned_member)
     (simp add: setAdd_member fold_customStep_mono fst_fold_styleStep_mono fold_setAdd_mono)

lemma classify_cssVars_member:
  assumes "concat (cssVars prev) \<noteq> concat (cssVars next)"
    and "getMainModule mods = Some m"
  shows "m \<in> set (returned (classify css g mods prev next))"
  using assms unfolding classify_def Let_def
  by (simp only: HotUpdate.select_convs returned_member)
     (simp add: setAdd_member fold_customStep_mono fst_fold_styleStep_mono fold_setAdd_mono)

text \<open>
  The classification as a chain of named stages, one for each assignment of the source;
  a run is followed by giving the value of each stage in turn.
\<close>

lemma classify_staged:
  assumes "mainModule = getMainModule mods"
    and "templateModule = find (\<lambda>m. includes (url m) ''type=template'') mods"
    and "scriptChanged = hasScriptChanged g prev next"
    and "needRerender = (\<not> isEqualBlock (template next) (template prev))"
    and "a1 = (if scriptChanged
               then setAdd (case getScriptModule mods of Some m \<Rightarrow> Some m | None \<Rightarrow> mainModule) []
               else [])"
    and "a2 = (if needRerender then setAdd templateModule a1 else a1)"
    and "a3 = (if concat (cssVars prev) \<noteq> concat (cssVars next)
               then setAdd mainModule a2 else a2)"
    and "a4 = (if list_ex scoped (styles prev) \<noteq> list_ex scoped (styles next)
               then setAdd mainModule (setAdd templateModule a3) else a3)"
    and "styled = fold (styleStep mods mainModule (styles prev) (styles next))
                    [0..<length (styles next)] (a4, False)"
    and "a6 = (if length (styles prev) > length (styles next)
               then setAdd mainModule (fst styled) else fst styled)"
    and "a7 = (if length (customBlocks prev) \<noteq> length (customBlocks next)
               then setAdd mainModule a6
               else fold (customStep mods mainModule (customBlocks prev) (customBlocks next))
                      [0..<length (customBlocks next)] a6)"
    and "a8 = (if needRerender then
                 (if templateModule = None then setAdd mainModule a7
                  else if mainModule \<noteq> None \<and> mainModule \<notin> set a7 then
                    fold (\<lambda>m. setAdd (Some m))
                      (filter (\<lambda>m. css (url m)) (importers (the mainModule))) a7
                  else a7)
               else a7)"
  shows "classify css g mods prev next =
           \<lparr>returned = map the (filter (\<lambda>m. m \<noteq> None) a8),
            updateType = (if needRerender then [''template''] else [])
                         @ (if snd styled then [''style''] else []),
            reusedScript = (if needRerender \<and> \<not> scriptChanged
                            then Some (g prev False) else None)\<rparr>"
  unfolding assms classify_def Let_def
  by (rule refl)

text \<open>
  Descriptors without style blocks and custom blocks and with the same CSS variables: the
  stages after the second leave the affected set as it is.
\<close>

lemma classify_blocks_only:
  assumes st: "styles prev = []" "styles next = []"
    and cu: "customBlocks prev = []" "customBlocks next = []"
    and cv: "concat (cssVars prev) = concat (cssVars next)"
    and a2: "a2 = (if \<not> isEqualBlock (template next) (template prev)
                   then setAdd (find (\<lambda>m. includes (url m) ''type=template'') mods)
                          (if hasScriptChanged g prev next
                           then setAdd (case getScriptModule mods of
                                          Some m \<Rightarrow> Some m | None \<Rightarrow> getMainModule mods) []
                           else [])
                   else (if hasScriptChanged g prev next
                         then setAdd (case getScriptModule mods of
                                        Some m \<Rightarrow> Some m | None \<Rightarrow> getMainModule mods) []
                         else []))"
    and a8: "a8 = (if \<not> isEqualBlock (template next) (template prev) then
                 (if find (\<lambda>m. includes (url m) ''type=template'') mods = None
                  then setAdd (getMainModule mods) a2
                  else if getMainModule mods \<noteq> None \<and> getMainModule mods \<notin> set a2 then
                    fold (\<lambda>m. setAdd (Some m))
                      (filter (\<lambda>m. css (url m)) (importers (the (getMainModule mods)))) a2
                  else a2)
               else a2)"
  shows "classify css g mods prev next =
           \<lparr>returned = map the (filter (\<lambda>m. m \<noteq> None) a8),
            updateType = (if \<not> isEqualBlock (template next) (template prev)
                          then [''template''] else []),
            reusedScript = (if \<not> isEqualBlock (template next) (template prev)
                              \<and> \<not> hasScriptChanged g prev next
                            then Some (g prev False) else None)\<rparr>"
proof -
  have s3: "a2 = (if concat (cssVars prev) \<noteq> concat (cssVars next)
                  then setAdd (getMainModule mods) a2 else a2)"
    using cv by simp
  have s4: "a2 = (if list_ex scoped (styles prev) \<noteq> list_ex scoped (styles next)
                  then setAdd (getMainModule mods)
                         (setAdd (find (\<lambda>m. includes (url m) ''type=template'') mods) a2)
                  else a2)"
    using st by simp
  have s5: "(a2, False) = fold (styleStep mods (getMainModule mods) (styles prev) (styles next))
                            [0..<length (styles next)] (a2, False)"
    using st by simp
  have s6: "a2 = (if length (styles prev) > length (styles next)
                  then setAdd (getMainModule mods) (fst (a2, False)) else fst (a2, False))"
    using st by simp
  have s7: "a2 = (if length (customBlocks prev) \<noteq> length (customBlocks next)
                  then setAdd (getMainModule mods) a2
                  else fold (customStep mods (getMainModule mods) (customBlocks prev)
                               (customBlocks next))
                         [0..<length (customBlocks next)] a2)"
    using cu by simp
  from classify_staged [OF refl refl refl refl refl a2 s3 s4 s5 s6 s7 a8]
  show ?thesis by simp
qed

lemma classify_script_only:
  assumes st: "styles prev = []" "styles next = []"
    and cu: "customBlocks prev = []" "customBlocks next = []"
    and cv: "concat (cssVars prev) = concat (cssVars next)"
    and te: "isEqualBlock (template next) (template prev)"
    and sc: "hasScriptChanged g prev next"
  shows "classify css g mods prev next =
           \<lparr>returned = (case (case getScriptModule mods of
                                  Some m \<Rightarrow> Some m | None \<Rightarrow> getMainModule mods) of
                          None \<Rightarrow> [] | Some m \<Rightarrow> [m]),
            updateType = [], reusedScript = None\<rparr>"
proof -
  let ?sm = "case getScriptModule mods of Some m \<Rightarrow> Some m | None \<Rightarrow> getMainModule mods"
  have a2: "[?sm] = (if \<not> isEqualBlock (template next) (template prev)
                   then setAdd (find (\<lambda>m. includes (url m) ''type=template'') mods)
                          (if hasScriptChanged g prev next
                           then setAdd (case getScriptModule mods of
                                          Some m \<Rightarrow> Some m | None \<Rightarrow> getMainModule mods) []
                           else [])
                   else (if hasScriptChanged g prev next
                         then setAdd (case getScriptModule mods of
                                        Some m \<Rightarrow> Some m | None \<Rightarrow> getMainModule mods) []
                         else []))"
    using te sc by (simp add: setAdd_def)
  have a8: "[?sm] = (if \<not> isEqualBlock (template next) (template prev) then
                 (if find (\<lambda>m. includes (url m) ''type=template'') mods = None
                  then setAdd (getMainModule mods) [?sm]
                  else if getMainModule mods \<noteq> None \<and> getMainModule mods \<notin> set [?sm] then
                    fold (\<lambda>m. setAdd (Some m))
                      (filter (\<lambda>m. css (url m)) (importers (the (getMainModule mods)))) [?sm]
                  else [?sm])
               else [?sm])"
    using te by simp
  from classify_blocks_only [OF st cu cv a2 a8] te sc
  show ?thesis by (cases ?sm) simp_all
qed

lemma classify_markup_only:
  assumes st: "styles prev = []" "styles next = []"
    and cu: "customBlocks prev = []" "customBlocks next = []"
    and cv: "concat (cssVars prev) = concat (cssVars next)"
    and te: "\<not> isEqualBlock (template next) (template prev)"
    and sc: "\<not> hasScriptChanged g prev next"
    and a8: "a8 = (if find (\<lambda>m. includes (url m) ''type=template'') mods = None
                   then setAdd (getMainModule mods)
                          [find (\<lambda>m. includes (url m) ''type=template'') mods]
                   else if getMainModule mods \<noteq> None
                           \<and> getMainModule mods
                               \<notin> set [find (\<lambda>m. includes (url m) ''type=template'') mods]
                   then fold (\<lambda>m. setAdd (Some m))
                          (filter (\<lambda>m. css (url m)) (importers (the (getMainModule mods))))
                          [find (\<lambda>m. includes (url m) ''type=template'') mods]
                   else [find (\<lambda>m. includes (url m) ''type=template'') mods])"
  shows "classify css g mods prev next =
           \<lparr>returned = map the (filter (\<lambda>m. m \<noteq> None) a8),
            updateType = [''template''], reusedScript = Some (g prev False)\<rparr>"
proof -
  let ?t = "find (\<lambda>m. includes (url m) ''type=template'') mods"
  have a2: "[?t] = (if \<not> isEqualBlock (template next) (template prev)
                   then setAdd (find (\<lambda>m. includes (url m) ''type=template'') mods)
                          (if hasScriptChanged g prev next
                           then setAdd (case getScriptModule mods of
                                          Some m \<Rightarrow> Some m | None \<Rightarrow> getMainModule mods) []
                           else [])
                   else (if hasScriptChanged g prev next
                         then setAdd (case getScriptModule mods of
                                        Some m \<Rightarrow> Some m | None \<Rightarrow> getMainModule mods) []
                         else []))"
    using te sc by (simp add: setAdd_def)
  have a8': "a8 = (if \<not> isEqualBlock (template next) (template prev) then
                 (if find (\<lambda>m. includes (url m) ''type=template'') mods = None
                  then setAdd (getMainModule mods) [?t]
                  else if getMainModule mods \<noteq> None \<and> getMainModule mods \<notin> set [?t] then
                    fold (\<lambda>m. setAdd (Some m))
                      (filter (\<lambda>m. css (url m)) (importers (the (getMainModule mods)))) [?t]
                  else [?t])
               else [?t])"
    using te a8 by simp
  from classify_blocks_only [OF st cu cv a2 a8'] te sc
  show ?thesis by simp
qed

lemma handleHotUpdate_run:
  assumes "hmrCache st (file ctx) = Some prev" and "read ctx = Inr newContent"
  shows "handleHotUpdate css g h ctx opts st =
           (Inr (Some (classify css g (modules ctx) prev
                         (descriptor (fst (createDescriptor h (file ctx) newContent opts True st))))),
            if updateType (classify css g (modules ctx) prev
                 (descriptor (fst (createDescriptor h (file ctx) newContent opts True st)))) \<noteq> []
            then invalidateDescriptor (file ctx) False
                   (snd (createDescriptor h (file ctx) newContent opts True st))
            else snd (createDescriptor h (file ctx) newContent opts True st))"
  using assms by (simp add: handleHotUpdate_def getDescriptor_def split_beta Let_def)

lemma createDescriptor_hmr_caches:
  "cache (snd (createDescriptor h f s opts True st)) = cache st"
  "prevCache (snd (createDescriptor h f s opts True st)) = prevCache st"
  by (simp_all add: createDescriptor_state)

lemma invalidateDescriptor_caches:
  "cache (invalidateDescriptor f False st) = (cache st)(f := None)"
  "prevCache (invalidateDescriptor f False st)
     = (case cache st f of None \<Rightarrow> prevCache st | Some d \<Rightarrow> (prevCache st)(f \<mapsto> d))"
  by (simp_all add: invalidateDescriptor_def Let_def split: option.splits)

text \<open>
  C1, as the claim states it, fails: when only the behavior block changes, the main module
  is returned as affected, no update kind is recorded and the descriptor stays in
  \<^verbatim>\<open>cache\<close>, with nothing moved to \<^verbatim>\<open>prevCache\<close>.
\<close>

theorem handleHotUpdate_script_change_keeps_cache:
  "handleHotUpdate (\<lambda>u. False) (\<lambda>d ssr. None) (samplePlatform Map.empty)
     \<lparr>file = ''/app/A.vue'', modules = [ModuleNode ''/app/A.vue'' []], read = Inr ''b()''\<rparr>
     ((sampleOptions False)\<lparr>compiler := \<lparr>parse = sampleScriptParse\<rparr>\<rparr>)
     (sampleCaches ''/app/A.vue''
        ((sampleDescriptor ''/app/A.vue'')
           \<lparr>id' := ''euv.A'', script := Some (sampleBlock ''script'' ''a()'' [])\<rparr>))
   = (Inr (Some \<lparr>returned = [ModuleNode ''/app/A.vue'' []], updateType = [],
                  reusedScript = None\<rparr>),
      \<lparr>cache = [''/app/A.vue'' \<mapsto>
                   (sampleDescriptor ''/app/A.vue'')
                     \<lparr>id' := ''euv.A'', script := Some (sampleBlock ''script'' ''a()'' [])\<rparr>],
       hmrCache = [''/app/A.vue'' \<mapsto>
                   (sampleDescriptor ''/app/A.vue'')
                     \<lparr>id' := ''euv.A'', script := Some (sampleBlock ''script'' ''b()'' [])\<rparr>],
       prevCache = Map.empty\<rparr>)"
proof -
  let ?old = "(sampleDescriptor ''/app/A.vue'')
                \<lparr>id' := ''euv.A'', script := Some (sampleBlock ''script'' ''a()'' [])\<rparr>"
  let ?new = "(sampleDescriptor ''/app/A.vue'')
                \<lparr>id' := ''euv.A'', script := Some (sampleBlock ''script'' ''b()'' [])\<rparr>"
  let ?ctx = "\<lparr>file = ''/app/A.vue'', modules = [ModuleNode ''/app/A.vue'' []],
               read = Inr ''b()''\<rparr>"
  let ?opts = "(sampleOptions False)\<lparr>compiler := \<lparr>parse = sampleScriptParse\<rparr>\<rparr>"
  have hm: "hmrCache (sampleCaches ''/app/A.vue'' ?old) (file ?ctx) = Some ?old"
    by (simp add: sampleCaches_def)
  have rd: "read ?ctx = Inr ''b()''"
    by simp
  have n: "descriptor (fst (createDescriptor (samplePlatform Map.empty) (file ?ctx) ''b()'' ?opts
                              True (sampleCaches ''/app/A.vue'' ?old))) = ?new"
    by (simp add: createDescriptor_result sample_defs getHash_def)
  have s: "snd (createDescriptor (samplePlatform Map.empty) (file ?ctx) ''b()'' ?opts
                  True (sampleCaches ''/app/A.vue'' ?old))
           = \<lparr>cache = [''/app/A.vue'' \<mapsto> ?old], hmrCache = [''/app/A.vue'' \<mapsto> ?new],
              prevCache = Map.empty\<rparr>"
    unfolding createDescriptor_state n by (simp add: sampleCaches_def)
  have sc: "hasScriptChanged (\<lambda>d ssr. None) ?old ?new"
    by (simp add: hasScriptChanged_def sampleBlock_def truthy_def)
  have m: "(case getScriptModule (modules ?ctx) of
              Some m \<Rightarrow> Some m | None \<Rightarrow> getMainModule (modules ?ctx))
           = Some (ModuleNode ''/app/A.vue'' [])"
    by (simp add: getScriptModule_def getMainModule_def)
  have c: "classify (\<lambda>u. False) (\<lambda>d ssr. None) (modules ?ctx) ?old ?new
           = \<lparr>returned = [ModuleNode ''/app/A.vue'' []], updateType = [], reusedScript = None\<rparr>"
    using classify_script_only [of ?old ?new "\<lambda>d ssr. None" "\<lambda>u. False" "modules ?ctx", OF _ _ _ _ _ _ sc]
    unfolding m by (simp add: sampleDescriptor_def)
  show ?thesis
    unfolding handleHotUpdate_run [OF hm rd] n c s by simp
qed

text \<open>
  C1, amended. A run that finds the previous descriptor and reads the new content
  invalidates the cache entry of the file, moving the descriptor held in \<^verbatim>\<open>cache\<close> (if
  any) to \<^verbatim>\<open>prevCache\<close>, exactly when it recorded an update kind, which is exactly when the
  markup block changed or some style block of the new descriptor is new or changed;
  otherwise \<^verbatim>\<open>cache\<close> and \<^verbatim>\<open>prevCache\<close> are left as they were. A changed behavior block
  puts the script module, or else the main module, into the returned modules, and changed
  CSS variables put the main module there, whether or not an update kind was recorded.
\<close>

theorem handleHotUpdate_invalidates_on_update_kind:
  assumes "hmrCache st (file ctx) = Some prev" and "read ctx = Inr newContent"
    and "next = descriptor (fst (createDescriptor h (file ctx) newContent opts True st))"
  shows "fst (handleHotUpdate css g h ctx opts st)
           = Inr (Some (classify css g (modules ctx) prev next))
         \<and> ((updateType (classify css g (modules ctx) prev next) \<noteq> [])
              = (\<not> isEqualBlock (template next) (template prev)
                 \<or> (\<exists>i<length (styles next).
                       at (styles prev) i = None
                       \<or> \<not> isEqualBlock (at (styles prev) i) (Some (styles next ! i)))))
         \<and> (updateType (classify css g (modules ctx) prev next) \<noteq> [] \<longrightarrow>
               cache (snd (handleHotUpdate css g h ctx opts st)) = (cache st)(file ctx := None)
               \<and> prevCache (snd (handleHotUpdate css g h ctx opts st))
                   = (case cache st (file ctx) of
                        None \<Rightarrow> prevCache st
                      | Some d \<Rightarrow> (prevCache st)(file ctx \<mapsto> d)))
         \<and> (updateType (classify css g (modules ctx) prev next) = [] \<longrightarrow>
               cache (snd (handleHotUpdate css g h ctx opts st)) = cache st
               \<and> prevCache (snd (handleHotUpdate css g h ctx opts st)) = prevCache st)
         \<and> (hasScriptChanged g prev next \<longrightarrow>
               (\<forall>m. (case getScriptModule (modules ctx) of
                        Some s \<Rightarrow> Some s | None \<Rightarrow> getMainModule (modules ctx)) = Some m
                     \<longrightarrow> m \<in> set (returned (classify css g (modules ctx) prev next))))
         \<and> (concat (cssVars prev) \<noteq> concat (cssVars next) \<longrightarrow>
               (\<forall>m. getMainModule (modules ctx) = Some m
                     \<longrightarrow> m \<in> set (returned (classify css g (modules ctx) prev next))))"
proof (intro conjI impI allI)
  note run = handleHotUpdate_run [OF assms(1,2), of css g h opts, folded assms(3)]
  show "fst (handleHotUpdate css g h ctx opts st)
          = Inr (Some (classify css g (modules ctx) prev next))"
    by (simp add: run)
  show "(updateType (classify css g (modules ctx) prev next) \<noteq> [])
          = (\<not> isEqualBlock (template next) (template prev)
             \<or> (\<exists>i<length (styles next).
                   at (styles prev) i = None
                   \<or> \<not> isEqualBlock (at (styles prev) i) (Some (styles next ! i))))"
    by (simp add: classify_updateType)
  {
    assume u: "updateType (classify css g (modules ctx) prev next) \<noteq> []"
    then have s: "snd (handleHotUpdate css g h ctx opts st)
                  = invalidateDescriptor (file ctx) False
                      (snd (createDescriptor h (file ctx) newContent opts True st))"
      by (simp add: run)
    show "cache (snd (handleHotUpdate css g h ctx opts st)) = (cache st)(file ctx := None)"
      by (simp add: s invalidateDescriptor_caches createDescriptor_hmr_caches)
    show "prevCache (snd (handleHotUpdate css g h ctx opts st))
            = (case cache st (file ctx) of
                 None \<Rightarrow> prevCache st
               | Some d \<Rightarrow> (prevCache st)(file ctx \<mapsto> d))"
      by (simp add: s invalidateDescriptor_caches createDescriptor_hmr_caches
            cong: option.case_cong)
  }
  {
    assume u: "updateType (classify css g (modules ctx) prev next) = []"
    then have s: "snd (handleHotUpdate css g h ctx opts st)
                  = snd (createDescriptor h (file ctx) newContent opts True st)"
      by (simp add: run)
    show "cache (snd (handleHotUpdate css g h ctx opts st)) = cache st"
      by (simp add: s createDescriptor_hmr_caches)
    show "prevCache (snd (handleHotUpdate css g h ctx opts st)) = prevCache st"
      by (simp add: s createDescriptor_hmr_caches)
  }
  {
    fix m
    assume "hasScriptChanged g prev next"
      and "(case getScriptModule (modules ctx) of
              Some s \<Rightarrow> Some s | None \<Rightarrow> getMainModule (modules ctx)) = Some m"
    then show "m \<in> set (returned (classify css g (modules ctx) prev next))"
      by (rule classify_script_member)
  }
  {
    fix m
    assume "concat (cssVars prev) \<noteq> concat (cssVars next)"
      and "getMainModule (modules ctx) = Some m"
    then show "m \<in> set (returned (classify css g (modules ctx) prev next))"
      by (rule classify_cssVars_member)
  }
qed

theorem handleHotUpdate_invalidates_on_update_kind_witness:
  "hmrCache (sampleCaches ''/app/A.vue''
               ((sampleDescriptor ''/app/A.vue'')
                  \<lparr>id' := ''euv.A'', template := Some (sampleBlock ''template'' ''old'' [])\<rparr>))
     (file \<lparr>file = ''/app/A.vue'', modules = [ModuleNode ''/app/A.vue'' []], read = Inr ''new''\<rparr>)
     = Some ((sampleDescriptor ''/app/A.vue'')
               \<lparr>id' := ''euv.A'', template := Some (sampleBlock ''template'' ''old'' [])\<rparr>)
   \<and> read \<lparr>file = ''/app/A.vue'', modules = [ModuleNode ''/app/A.vue'' []], read = Inr ''new''\<rparr>
       = Inr ''new''
   \<and> cache (snd (handleHotUpdate (\<lambda>u. False) (\<lambda>d ssr. None) (samplePlatform Map.empty)
                   \<lparr>file = ''/app/A.vue'', modules = [ModuleNode ''/app/A.vue'' []],
                     read = Inr ''new''\<rparr>
                   (sampleOptions False)
                   (sampleCaches ''/app/A.vue''
                      ((sampleDescriptor ''/app/A.vue'')
                         \<lparr>id' := ''euv.A'',
                           template := Some (sampleBlock ''template'' ''old'' [])\<rparr>))))
       ''/app/A.vue'' = None
   \<and> prevCache (snd (handleHotUpdate (\<lambda>u. False) (\<lambda>d ssr. None) (samplePlatform Map.empty)
                       \<lparr>file = ''/app/A.vue'', modules = [ModuleNode ''/app/A.vue'' []],
                         read = Inr ''new''\<rparr>
                       (sampleOptions False)
                       (sampleCaches ''/app/A.vue''
                          ((sampleDescriptor ''/app/A.vue'')
                             \<lparr>id' := ''euv.A'',
                               template := Some (sampleBlock ''template'' ''old'' [])\<rparr>))))
       ''/app/A.vue''
       = Some ((sampleDescriptor ''/app/A.vue'')
                 \<lparr>id' := ''euv.A'', template := Some (sampleBlock ''template'' ''old'' [])\<rparr>)"
proof -
  let ?old = "(sampleDescriptor ''/app/A.vue'')
                \<lparr>id' := ''euv.A'', template := Some (sampleBlock ''template'' ''old'' [])\<rparr>"
  let ?new = "(sampleDescriptor ''/app/A.vue'')
                \<lparr>id' := ''euv.A'', template := Some (sampleBlock ''template'' ''new'' [])\<rparr>"
  let ?ctx = "\<lparr>file = ''/app/A.vue'', modules = [ModuleNode ''/app/A.vue'' []],
               read = Inr ''new''\<rparr>"
  have hm: "hmrCache (sampleCaches ''/app/A.vue'' ?old) (file ?ctx) = Some ?old"
    by (simp add: sampleCaches_def)
  have rd: "read ?ctx = Inr ''new''"
    by simp
  have n: "?new = descriptor (fst (createDescriptor (samplePlatform Map.empty) (file ?ctx) ''new''
                                     (sampleOptions False) True (sampleCaches ''/app/A.vue'' ?old)))"
    by (simp add: createDescriptor_result sample_defs getHash_def)
  have t: "\<not> isEqualBlock (template ?new) (template ?old)"
    by (simp add: sampleBlock_def truthy_def)
  have c: "cache (sampleCaches ''/app/A.vue'' ?old) ''/app/A.vue'' = Some ?old"
    by (simp add: sampleCaches_def)
  have p: "prevCache (sampleCaches ''/app/A.vue'' ?old) = Map.empty"
    by (simp add: sampleCaches_def)
  from handleHotUpdate_invalidates_on_update_kind
         [OF hm rd n, of "\<lambda>u. False" "\<lambda>d ssr. None"] t
  have "cache (snd (handleHotUpdate (\<lambda>u. False) (\<lambda>d ssr. None) (samplePlatform Map.empty) ?ctx
                      (sampleOptions False) (sampleCaches ''/app/A.vue'' ?old)))
          = (cache (sampleCaches ''/app/A.vue'' ?old))(file ?ctx := None)"
    and "prevCache (snd (handleHotUpdate (\<lambda>u. False) (\<lambda>d ssr. None) (samplePlatform Map.empty)
                           ?ctx (sampleOptions False) (sampleCaches ''/app/A.vue'' ?old)))
          = (case cache (sampleCaches ''/app/A.vue'' ?old) (file ?ctx) of
               None \<Rightarrow> prevCache (sampleCaches ''/app/A.vue'' ?old)
             | Some d \<Rightarrow> (prevCache (sampleCaches ''/app/A.vue'' ?old))(file ?ctx \<mapsto> d))"
    by blast+
  then show ?thesis
    using hm rd by (simp add: c p)
qed

lemma returned_set:
  "set (map the (filter (\<lambda>m. m \<noteq> None) a)) = {m. Some m \<in> set a}"
  by (induction a) auto

text \<open>
  C9, as the claim states it, fails: when the live modules hold no markup module, because
  the markup is compiled into the main module, a change of the markup text alone returns
  the main module.
\<close>

theorem handleHotUpdate_markup_change_returns_main:
  "fst (handleHotUpdate (\<lambda>u. False) (\<lambda>d ssr. None) (samplePlatform Map.empty)
          \<lparr>file = ''/app/A.vue'', modules = [ModuleNode ''/app/A.vue'' []], read = Inr ''new''\<rparr>
          (sampleOptions False)
          (sampleCaches ''/app/A.vue''
             ((sampleDescriptor ''/app/A.vue'')
                \<lparr>id' := ''euv.A'', template := Some (sampleBlock ''template'' ''old'' [])\<rparr>)))
   = Inr (Some \<lparr>returned = [ModuleNode ''/app/A.vue'' []], updateType = [''template''],
                 reusedScript = Some None\<rparr>)"
proof -
  let ?old = "(sampleDescriptor ''/app/A.vue'')
                \<lparr>id' := ''euv.A'', template := Some (sampleBlock ''template'' ''old'' [])\<rparr>"
  let ?new = "(sampleDescriptor ''/app/A.vue'')
                \<lparr>id' := ''euv.A'', template := Some (sampleBlock ''template'' ''new'' [])\<rparr>"
  let ?ctx = "\<lparr>file = ''/app/A.vue'', modules = [ModuleNode ''/app/A.vue'' []],
               read = Inr ''new''\<rparr>"
  have hm: "hmrCache (sampleCaches ''/app/A.vue'' ?old) (file ?ctx) = Some ?old"
    by (simp add: sampleCaches_def)
  have rd: "read ?ctx = Inr ''new''"
    by simp
  have n: "descriptor (fst (createDescriptor (samplePlatform Map.empty) (file ?ctx) ''new''
                              (sampleOptions False) True (sampleCaches ''/app/A.vue'' ?old))) = ?new"
    by (simp add: createDescriptor_result sample_defs getHash_def)
  have te: "\<not> isEqualBlock (template ?new) (template ?old)"
    by (simp add: sampleBlock_def truthy_def)
  have sc: "\<not> hasScriptChanged (\<lambda>d ssr. None) ?old ?new"
    by (simp add: hasScriptChanged_def prevImportsOf_def sampleDescriptor_def)
  have t: "find (\<lambda>m. includes (url m) ''type=template'') (modules ?ctx) = None"
    by simp
  have m: "getMainModule (modules ?ctx) = Some (ModuleNode ''/app/A.vue'' [])"
    by (simp add: getMainModule_def)
  have c: "classify (\<lambda>u. False) (\<lambda>d ssr. None) (modules ?ctx) ?old ?new
           = \<lparr>returned = [ModuleNode ''/app/A.vue'' []], updateType = [''template''],
              reusedScript = Some None\<rparr>"
    using classify_markup_only
            [of ?old ?new "\<lambda>d ssr. None" _ "modules ?ctx" "\<lambda>u. False",
             OF _ _ _ _ _ te sc refl]
    unfolding t m by (simp add: sampleDescriptor_def setAdd_def)
  show ?thesis
    unfolding handleHotUpdate_run [OF hm rd] n c by simp
qed

text \<open>
  C9, amended. For a file whose previous and new descriptors have only a markup block, the
  block carrying no \<^verbatim>\<open>src\<close>, and an edit that changes only the text of that block, with no
  compiled script recorded for the previous descriptor: the run records the template update
  kind alone. When a markup module is among the live modules, the returned modules are that
  module together with the CSS-request importers of the main module (none if there is no
  main module or it is the markup module itself); so without such importers exactly the
  markup module is returned, and the main module is returned only if it is the markup
  module or a CSS-request importer of itself. When no markup module is among the live
  modules, exactly the main module is returned, or nothing if there is none.
\<close>

theorem handleHotUpdate_markup_only_edit:
  assumes "hmrCache st (file ctx) = Some prev" and "read ctx = Inr newContent"
    and "next = descriptor (fst (createDescriptor h (file ctx) newContent opts True st))"
    and "script prev = None" and "scriptSetup prev = None"
    and "styles prev = []" and "customBlocks prev = []"
    and "script next = None" and "scriptSetup next = None"
    and "styles next = []" and "customBlocks next = []"
    and "cssVars next = cssVars prev"
    and "template prev = Some tp" and "template next = Some (tp\<lparr>content := newText\<rparr>)"
    and "newText \<noteq> content tp" and "\<not> truthy (src tp)"
    and "g prev False = None"
  shows "fst (handleHotUpdate css g h ctx opts st)
           = Inr (Some (classify css g (modules ctx) prev next))
         \<and> updateType (classify css g (modules ctx) prev next) = [''template'']
         \<and> (find (\<lambda>m. includes (url m) ''type=template'') (modules ctx) = None \<longrightarrow>
               returned (classify css g (modules ctx) prev next)
                 = (case getMainModule (modules ctx) of None \<Rightarrow> [] | Some m \<Rightarrow> [m]))
         \<and> (\<forall>t. find (\<lambda>m. includes (url m) ''type=template'') (modules ctx) = Some t \<longrightarrow>
               set (returned (classify css g (modules ctx) prev next))
                 = insert t (case getMainModule (modules ctx) of
                               None \<Rightarrow> {}
                             | Some m \<Rightarrow> if m = t then {}
                                        else {x \<in> set (importers m). css (url x)})
               \<and> ((case getMainModule (modules ctx) of
                      None \<Rightarrow> True
                    | Some m \<Rightarrow> m = t \<or> filter (\<lambda>x. css (url x)) (importers m) = [])
                   \<longrightarrow> returned (classify css g (modules ctx) prev next) = [t])
               \<and> (\<forall>m. getMainModule (modules ctx) = Some m \<and> m \<noteq> t
                        \<and> \<not> (m \<in> set (importers m) \<and> css (url m))
                     \<longrightarrow> m \<notin> set (returned (classify css g (modules ctx) prev next))))"
proof -
  let ?T = "find (\<lambda>m. includes (url m) ''type=template'') (modules ctx)"
  let ?M = "getMainModule (modules ctx)"
  let ?a8 = "if ?T = None then setAdd ?M [?T]
             else if ?M \<noteq> None \<and> ?M \<notin> set [?T]
             then fold (\<lambda>m. setAdd (Some m))
                    (filter (\<lambda>m. css (url m)) (importers (the ?M))) [?T]
             else [?T]"
  have te: "\<not> isEqualBlock (template next) (template prev)"
    using assms(13-16) by simp
  have sc: "\<not> hasScriptChanged g prev next"
    using assms(4,5,8,9,17) by (simp add: hasScriptChanged_def prevImportsOf_def)
  have cv: "concat (cssVars prev) = concat (cssVars next)"
    using assms(12) by simp
  have c: "classify css g (modules ctx) prev next =
             \<lparr>returned = map the (filter (\<lambda>m. m \<noteq> None) ?a8),
              updateType = [''template''], reusedScript = Some (g prev False)\<rparr>"
    using assms(6) assms(10) assms(7) assms(11) cv te sc refl
    by (rule classify_markup_only)
  have run: "fst (handleHotUpdate css g h ctx opts st)
               = Inr (Some (classify css g (modules ctx) prev next))"
    using handleHotUpdate_run [OF assms(1,2), of css g h opts, folded assms(3)] by simp
  have u: "updateType (classify css g (modules ctx) prev next) = [''template'']"
    by (simp add: c)
  have none: "?T = None \<Longrightarrow>
                returned (classify css g (modules ctx) prev next)
                  = (case ?M of None \<Rightarrow> [] | Some m \<Rightarrow> [m])"
    by (cases ?M) (simp_all add: c setAdd_def)
  have some_set: "set (returned (classify css g (modules ctx) prev next))
                    = insert t (case ?M of
                                  None \<Rightarrow> {}
                                | Some m \<Rightarrow> if m = t then {}
                                           else {x \<in> set (importers m). css (url x)})"
    if "?T = Some t" for t
  proof (cases ?M)
    case None
    with that show ?thesis by (simp add: c)
  next
    case (Some m)
    have "set (returned (classify css g (modules ctx) prev next)) = {x. Some x \<in> set ?a8}"
      by (simp only: c HotUpdate.select_convs returned_set)
    also have "\<dots> = insert t (if m = t then {} else {x \<in> set (importers m). css (url x)})"
      using that Some by (auto simp: set_fold_setAdd)
    finally show ?thesis
      using Some by simp
  qed
  have some_exact: "returned (classify css g (modules ctx) prev next) = [t]"
    if "?T = Some t"
      and "case ?M of None \<Rightarrow> True
           | Some m \<Rightarrow> m = t \<or> filter (\<lambda>x. css (url x)) (importers m) = []" for t
  proof (cases ?M)
    case None
    with that show ?thesis by (simp add: c)
  next
    case (Some m)
    with that show ?thesis
      by (auto simp: c)
  qed
  have some_main: "m \<notin> set (returned (classify css g (modules ctx) prev next))"
    if "?T = Some t" and "?M = Some m" and "m \<noteq> t"
      and "\<not> (m \<in> set (importers m) \<and> css (url m))" for t m
    using that some_set [OF that(1)] by auto
  from run u none some_set some_exact some_main show ?thesis
    by blast
qed

theorem handleHotUpdate_markup_only_edit_witness:
  "hmrCache (sampleCaches ''/app/A.vue'' (sampleMarkup ''old''))
     (file \<lparr>file = ''/app/A.vue'', modules = sampleModules, read = Inr ''new''\<rparr>)
     = Some (sampleMarkup ''old'')
   \<and> read \<lparr>file = ''/app/A.vue'', modules = sampleModules, read = Inr ''new''\<rparr> = Inr ''new''
   \<and> sampleMarkup ''new''
       = descriptor (fst (createDescriptor (samplePlatform Map.empty)
                            (file \<lparr>file = ''/app/A.vue'', modules = sampleModules,
                                   read = Inr ''new''\<rparr>)
                            ''new'' (sampleOptions False) True
                            (sampleCaches ''/app/A.vue'' (sampleMarkup ''old''))))
   \<and> script (sampleMarkup ''old'') = None \<and> scriptSetup (sampleMarkup ''old'') = None
   \<and> styles (sampleMarkup ''old'') = [] \<and> customBlocks (sampleMarkup ''old'') = []
   \<and> script (sampleMarkup ''new'') = None \<and> scriptSetup (sampleMarkup ''new'') = None
   \<and> styles (sampleMarkup ''new'') = [] \<and> customBlocks (sampleMarkup ''new'') = []
   \<and> cssVars (sampleMarkup ''new'') = cssVars (sampleMarkup ''old'')
   \<and> template (sampleMarkup ''old'') = Some (sampleBlock ''template'' ''old'' [])
   \<and> template (sampleMarkup ''new'')
       = Some ((sampleBlock ''template'' ''old'' [])\<lparr>content := ''new''\<rparr>)
   \<and> ''new'' \<noteq> content (sampleBlock ''template'' ''old'' [])
   \<and> \<not> truthy (src (sampleBlock ''template'' ''old'' []))
   \<and> updateType (classify (\<lambda>u. endsWith u ''.css'') (\<lambda>d ssr. None) sampleModules
                    (sampleMarkup ''old'') (sampleMarkup ''new'')) = [''template'']
   \<and> set (returned (classify (\<lambda>u. endsWith u ''.css'') (\<lambda>d ssr. None) sampleModules
                        (sampleMarkup ''old'') (sampleMarkup ''new'')))
       = {ModuleNode ''/app/A.vue?vue&type=template&lang.js'' [], ModuleNode ''/app/tw.css'' []}"
proof -
  let ?ctx = "\<lparr>file = ''/app/A.vue'', modules = sampleModules, read = Inr ''new''\<rparr>"
  let ?tp = "sampleBlock ''template'' ''old'' []"
  have h1: "hmrCache (sampleCaches ''/app/A.vue'' (sampleMarkup ''old'')) (file ?ctx)
            = Some (sampleMarkup ''old'')"
    by (simp add: sampleCaches_def)
  have h2: "read ?ctx = Inr ''new''"
    by simp
  have h3: "sampleMarkup ''new''
            = descriptor (fst (createDescriptor (samplePlatform Map.empty) (file ?ctx) ''new''
                                 (sampleOptions False) True
                                 (sampleCaches ''/app/A.vue'' (sampleMarkup ''old''))))"
    by (simp add: createDescriptor_result sample_defs sampleMarkup_def getHash_def)
  have h4: "script (sampleMarkup ''old'') = None" "scriptSetup (sampleMarkup ''old'') = None"
    "styles (sampleMarkup ''old'') = []" "customBlocks (sampleMarkup ''old'') = []"
    by (simp_all add: sampleMarkup_def sampleDescriptor_def)
  have h8: "script (sampleMarkup ''new'') = None" "scriptSetup (sampleMarkup ''new'') = None"
    "styles (sampleMarkup ''new'') = []" "customBlocks (sampleMarkup ''new'') = []"
    by (simp_all add: sampleMarkup_def sampleDescriptor_def)
  have h12: "cssVars (sampleMarkup ''new'') = cssVars (sampleMarkup ''old'')"
    by (simp add: sampleMarkup_def sampleDescriptor_def)
  have h13: "template (sampleMarkup ''old'') = Some ?tp"
    by (simp add: sampleMarkup_def)
  have h14: "template (sampleMarkup ''new'') = Some (?tp\<lparr>content := ''new''\<rparr>)"
    by (simp add: sampleMarkup_def sampleBlock_def)
  have h15: "''new'' \<noteq> content ?tp"
    by (simp add: sampleBlock_def)
  have h16: "\<not> truthy (src ?tp)"
    by (simp add: sampleBlock_def truthy_def)
  have h17: "(\<lambda>d ssr. None :: SFCScriptBlock option) (sampleMarkup ''old'') False = None"
    by simp
  have t: "find (\<lambda>m. includes (url m) ''type=template'') (modules ?ctx)
           = Some (ModuleNode ''/app/A.vue?vue&type=template&lang.js'' [])"
    by (simp add: sampleModules_def)
  have m: "getMainModule (modules ?ctx)
           = Some (ModuleNode ''/app/A.vue'' [ModuleNode ''/app/tw.css'' []])"
    by (simp add: sampleModules_def getMainModule_def)
  have i: "{x \<in> set (importers (ModuleNode ''/app/A.vue'' [ModuleNode ''/app/tw.css'' []])).
             endsWith (url x) ''.css''} = {ModuleNode ''/app/tw.css'' []}"
    by (auto simp: endsWith_def)
  from handleHotUpdate_markup_only_edit
         [OF h1 h2 h3 h4 h8 h12 h13 h14 h15 h16 h17, of "\<lambda>u. endsWith u ''.css''"] t m i
  have "updateType (classify (\<lambda>u. endsWith u ''.css'') (\<lambda>d ssr. None) sampleModules
                      (sampleMarkup ''old'') (sampleMarkup ''new'')) = [''template'']"
    and "set (returned (classify (\<lambda>u. endsWith u ''.css'') (\<lambda>d ssr. None) sampleModules
                          (sampleMarkup ''old'') (sampleMarkup ''new'')))
         = {ModuleNode ''/app/A.vue?vue&type=template&lang.js'' [], ModuleNode ''/app/tw.css'' []}"
    by simp_all
  with h1 h2 h3 h4 h8 h12 h13 h14 h15 h16 show ?thesis
    by blast
qed

end
